theory Spec2Isabelle
  imports Main
begin

section \<open>Strings as the validator sees them\<close>

text \<open>
  A Python \<open>str\<close> is modelled as a \<open>string\<close> (a list of 8-bit characters). The character
  classes of the patterns in \<open>k8s.py\<close> are ASCII ranges; a character outside ASCII belongs
  to none of them.
\<close>

definition newline :: char where
  "newline = CHR 0x0A"

definition is_digit :: "char \<Rightarrow> bool" where
  "is_digit c = ((48::nat) \<le> of_char c \<and> of_char c \<le> (57::nat))"

definition is_lower :: "char \<Rightarrow> bool" where
  "is_lower c = ((97::nat) \<le> of_char c \<and> of_char c \<le> (122::nat))"

definition is_upper :: "char \<Rightarrow> bool" where
  "is_upper c = ((65::nat) \<le> of_char c \<and> of_char c \<le> (90::nat))"

text \<open>\<open>str.isspace\<close> on ASCII: tab, line feed, vertical tab, form feed, carriage return,
  the four separators 0x1C..0x1F and the space.\<close>

definition is_space :: "char \<Rightarrow> bool" where
  "is_space c = (((9::nat) \<le> of_char c \<and> of_char c \<le> (13::nat))
     \<or> ((28::nat) \<le> of_char c \<and> of_char c \<le> (32::nat)))"

text \<open>\<open>str.lower()\<close>: an upper-case ASCII letter moves up by 32, everything else stays.
  (Python lower-cases letters outside ASCII too; every pattern below refuses them.)\<close>

definition lower_char :: "char \<Rightarrow> char" where
  "lower_char c = (if is_upper c then char_of (of_char c + (32::nat)) else c)"

definition lower :: "string \<Rightarrow> string" where
  "lower s = map lower_char s"

text \<open>\<open>str.strip()\<close>: white space is dropped at both ends.\<close>

definition strip :: "string \<Rightarrow> string" where
  "strip s = rev (dropWhile is_space (rev (dropWhile is_space s)))"

text \<open>\<open>sub in s\<close> on strings: \<open>sub\<close> occurs in \<open>s\<close> as a contiguous run.\<close>

fun is_prefix :: "string \<Rightarrow> string \<Rightarrow> bool" where
  "is_prefix [] s = True"
| "is_prefix (a # as) [] = False"
| "is_prefix (a # as) (c # cs) = (a = c \<and> is_prefix as cs)"

fun contains :: "string \<Rightarrow> string \<Rightarrow> bool" where
  "contains sub [] = (sub = [])"
| "contains sub (c # cs) = (is_prefix sub (c # cs) \<or> contains sub cs)"

section \<open>The regular expressions of \<open>re.match\<close> and \<open>re.search\<close>\<close>

text \<open>
  The patterns of \<open>k8s.py\<close> are built from character classes, a class repeated
  (\<open>[...]*\<close>, \<open>[...]+\<close>), concatenation, an optional item \<open>(...)?\<close>, a capturing group
  and the end anchor. \<open>rx r s\<close> lists, in the priority order of a backtracking matcher
  (greedy first), what is left of \<open>s\<close> after a match of \<open>r\<close> at its start.
\<close>

datatype regex =
    Cls "char \<Rightarrow> bool"
  | Star "char \<Rightarrow> bool"
  | Plus "char \<Rightarrow> bool"
  | Seq regex regex
  | Opt regex
  | Grp regex
  | Eol

fun star_rests :: "(char \<Rightarrow> bool) \<Rightarrow> string \<Rightarrow> string list" where
  "star_rests p [] = [[]]"
| "star_rests p (c # cs) = (if p c then star_rests p cs else []) @ [c # cs]"

text \<open>Without the MULTILINE flag, \<open>$\<close> holds at the end of the string and just before a
  line feed that ends the string.\<close>

fun rx :: "regex \<Rightarrow> string \<Rightarrow> string list" where
  "rx (Cls p) s = (case s of [] \<Rightarrow> [] | c # cs \<Rightarrow> if p c then [cs] else [])"
| "rx (Star p) s = star_rests p s"
| "rx (Plus p) s = (case s of [] \<Rightarrow> [] | c # cs \<Rightarrow> if p c then star_rests p cs else [])"
| "rx (Seq a b) s = concat (map (rx b) (rx a s))"
| "rx (Opt a) s = rx a s @ [s]"
| "rx (Grp a) s = rx a s"
| "rx Eol s = (if s = [] \<or> s = [newline] then [s] else [])"

text \<open>\<open>re.match(pattern, s)\<close> tries the pattern at position 0 only, where a leading
  \<open>^\<close> always holds; the result is truthy when some match exists.\<close>

definition re_match :: "regex \<Rightarrow> string \<Rightarrow> bool" where
  "re_match r s = (rx r s \<noteq> [])"

text \<open>The language of an anchor-free pattern, for stating what a match means.\<close>

fun lang :: "regex \<Rightarrow> string set" where
  "lang (Cls p) = {[c] | c. p c}"
| "lang (Star p) = {u. \<forall>c \<in> set u. p c}"
| "lang (Plus p) = {u. u \<noteq> [] \<and> (\<forall>c \<in> set u. p c)}"
| "lang (Seq a b) = {u @ v | u v. u \<in> lang a \<and> v \<in> lang b}"
| "lang (Opt a) = lang a \<union> {[]}"
| "lang (Grp a) = lang a"
| "lang Eol = {}"

fun anchor_free :: "regex \<Rightarrow> bool" where
  "anchor_free (Seq a b) = (anchor_free a \<and> anchor_free b)"
| "anchor_free (Opt a) = anchor_free a"
| "anchor_free (Grp a) = anchor_free a"
| "anchor_free Eol = False"
| "anchor_free _ = True"

text \<open>A string matches a pattern in the strict sense when the pattern consumes all of it.\<close>

definition full_match :: "regex \<Rightarrow> string \<Rightarrow> bool" where
  "full_match r s = ([] \<in> set (rx r s))"

section \<open>Configuration and errors\<close>

text \<open>\<open>K8sConfig\<close>: the fields the guardrails read. The two lists default to \<open>None\<close> in
  the dataclass, and \<open>__post_init__\<close> replaces \<open>None\<close> (and only \<open>None\<close>) by the defaults.\<close>

record K8sConfig =
  namespace :: string
  timeout :: int
  max_replicas :: int
  allowed_images :: "string list"
  forbidden_namespaces :: "string list"

definition post_init_allowed_images :: "string list option \<Rightarrow> string list" where
  "post_init_allowed_images a =
     (case a of None \<Rightarrow> [''nginx'', ''httpd'', ''redis'', ''postgres'', ''mysql'', ''mongo'']
              | Some xs \<Rightarrow> xs)"

definition post_init_forbidden_namespaces :: "string list option \<Rightarrow> string list" where
  "post_init_forbidden_namespaces f =
     (case f of None \<Rightarrow> [''kube-system'', ''kube-public'', ''kube-node-lease'']
              | Some xs \<Rightarrow> xs)"

text \<open>The constructor call \<open>K8sConfig(namespace=..., timeout=..., max_replicas=...,
  allowed_images=..., forbidden_namespaces=...)\<close> followed by \<open>__post_init__\<close>.\<close>

definition K8sConfig_init ::
  "string \<Rightarrow> int \<Rightarrow> int \<Rightarrow> string list option \<Rightarrow> string list option \<Rightarrow> K8sConfig" where
  "K8sConfig_init ns t m a f =
     \<lparr> namespace = ns, timeout = t, max_replicas = m,
       allowed_images = post_init_allowed_images a,
       forbidden_namespaces = post_init_forbidden_namespaces f \<rparr>"

definition default_config :: K8sConfig where
  "default_config = K8sConfig_init ''default'' 30 10 None None"

text \<open>The messages of \<open>ValidationError\<close>, one constructor per \<open>raise\<close> of the validator.\<close>

datatype validation_msg =
    NameEmpty
  | NameFormat
  | NameTooLong
  | ImageEmpty
  | ImageNotAllowed "string list"
  | ImageFormat
  | ReplicasNotNonNegative
  | ReplicasExceed int
  | PortRange

datatype resource_msg =
    KubectlTimedOut int
  | KubectlNotFound
  | KubectlFailedToRun string
  | FailedToApply string
  | FailedToList string string

text \<open>The exceptions that can leave a function of the pipeline: the three classified
  subclasses of \<open>K8sError\<close> and the raw exceptions of the Python library.\<close>

datatype exn =
    ValidationError validation_msg
  | SecurityError string
  | ResourceError resource_msg
  | JSONDecodeError string
  | TypeError
  | AttributeError

fun is_K8sError :: "exn \<Rightarrow> bool" where
  "is_K8sError (ValidationError _) = True"
| "is_K8sError (SecurityError _) = True"
| "is_K8sError (ResourceError _) = True"
| "is_K8sError _ = False"

section \<open>\<open>InputValidator\<close>\<close>

definition alnum :: "char \<Rightarrow> bool" where
  "alnum c = (is_lower c \<or> is_digit c)"

definition hyphen_alnum :: "char \<Rightarrow> bool" where
  "hyphen_alnum c = (c = CHR ''-'' \<or> is_lower c \<or> is_digit c)"

text \<open>\<open>[a-z0-9]([-a-z0-9]*[a-z0-9])?\<close>, the pattern of \<open>validate_name\<close> between its anchors.\<close>

definition name_body :: regex where
  "name_body = Seq (Cls alnum) (Opt (Grp (Seq (Star hyphen_alnum) (Cls alnum))))"

definition name_pattern :: regex where
  "name_pattern = Seq name_body Eol"

text \<open>\<open>InputValidator.validate_name\<close>. The length is tested after the pattern, which lets
  ASCII characters through only, so that bytes and code points count alike.\<close>

definition validate_name :: "string \<Rightarrow> exn + string" where
  "validate_name name =
     (if name = [] then Inl (ValidationError NameEmpty)
      else if \<not> re_match name_pattern name then Inl (ValidationError NameFormat)
      else if length name > 63 then Inl (ValidationError NameTooLong)
      else Inr (strip (lower name)))"

definition image_repo_char :: "char \<Rightarrow> bool" where
  "image_repo_char c = (is_lower c \<or> is_upper c \<or> is_digit c
     \<or> c = CHR ''.'' \<or> c = CHR ''_'' \<or> c = CHR ''/'' \<or> c = CHR ''-'')"

definition image_tag_char :: "char \<Rightarrow> bool" where
  "image_tag_char c = (is_lower c \<or> is_upper c \<or> is_digit c
     \<or> c = CHR ''.'' \<or> c = CHR ''_'' \<or> c = CHR ''-'')"

text \<open>\<open>[a-zA-Z0-9._/-]+(:[a-zA-Z0-9._-]+)?\<close>\<close>

definition image_body :: regex where
  "image_body = Seq (Plus image_repo_char)
     (Opt (Grp (Seq (Cls (\<lambda>c. c = CHR '':'')) (Plus image_tag_char))))"

definition image_pattern :: regex where
  "image_pattern = Seq image_body Eol"

text \<open>\<open>any(allowed in image.lower() for allowed in allowed_images)\<close>\<close>

definition any_allowed :: "string list \<Rightarrow> string \<Rightarrow> bool" where
  "any_allowed allowed img = list_ex (\<lambda>a. contains a (lower img)) allowed"

definition validate_image :: "K8sConfig \<Rightarrow> string \<Rightarrow> exn + string" where
  "validate_image cfg img =
     (if img = [] then Inl (ValidationError ImageEmpty)
      else if allowed_images cfg \<noteq> [] \<and> \<not> any_allowed (allowed_images cfg) img
        then Inl (ValidationError (ImageNotAllowed (allowed_images cfg)))
      else if \<not> re_match image_pattern img then Inl (ValidationError ImageFormat)
      else Inr (strip img))"

definition validate_replicas :: "K8sConfig \<Rightarrow> int \<Rightarrow> exn + int" where
  "validate_replicas cfg replicas =
     (if replicas < 0 then Inl (ValidationError ReplicasNotNonNegative)
      else if replicas > max_replicas cfg then Inl (ValidationError (ReplicasExceed (max_replicas cfg)))
      else Inr replicas)"

definition validate_namespace :: "K8sConfig \<Rightarrow> string \<Rightarrow> exn + string" where
  "validate_namespace cfg ns0 =
     (let ns = (if ns0 = [] then namespace cfg else ns0)
      in if ns \<in> set (forbidden_namespaces cfg) then Inl (SecurityError ns)
         else validate_name ns)"

definition validate_port :: "int \<Rightarrow> exn + int" where
  "validate_port port =
     (if port < 1 \<or> port > 65535 then Inl (ValidationError PortRange) else Inr port)"

text \<open>A name in the strict sense of the Kubernetes naming rule: not empty, only lower-case
  letters, digits and hyphens, a letter or digit at both ends.\<close>

definition k8s_name :: "string \<Rightarrow> bool" where
  "k8s_name s = (s \<noteq> [] \<and> alnum (hd s) \<and> alnum (last s) \<and> list_all hyphen_alnum s)"

section \<open>Python values\<close>

text \<open>
  The values that travel through the tools: what \<open>json.loads\<close> yields for a tool input
  and what is handed to \<open>yaml.dump\<close> as a manifest. A dictionary keeps its insertion
  order, which \<open>yaml.dump(..., sort_keys=False)\<close> writes out as it is. Numbers with a
  fraction are not modelled.
\<close>

datatype pyval =
    PNone
  | PBool bool
  | PInt int
  | PStr string
  | PList "pyval list"
  | PDict "(string \<times> pyval) list"

fun truthy :: "pyval \<Rightarrow> bool" where
  "truthy PNone = False"
| "truthy (PBool b) = b"
| "truthy (PInt n) = (n \<noteq> 0)"
| "truthy (PStr s) = (s \<noteq> [])"
| "truthy (PList xs) = (xs \<noteq> [])"
| "truthy (PDict kvs) = (kvs \<noteq> [])"

text \<open>\<open>d.get(key, default)\<close> on a dictionary.\<close>

definition dict_get :: "(string \<times> pyval) list \<Rightarrow> string \<Rightarrow> pyval \<Rightarrow> pyval" where
  "dict_get kvs k dflt = (case map_of kvs k of None \<Rightarrow> dflt | Some v \<Rightarrow> v)"

text \<open>Reading a field of a nested document, as in \<open>manifest["spec"]["replicas"]\<close>.\<close>

fun field_at :: "string list \<Rightarrow> pyval \<Rightarrow> pyval option" where
  "field_at [] v = Some v"
| "field_at (k # ks) (PDict kvs) =
     (case map_of kvs k of None \<Rightarrow> None | Some v \<Rightarrow> field_at ks v)"
| "field_at (k # ks) _ = None"

section \<open>Base64\<close>

definition b64_alphabet :: string where
  "b64_alphabet = ''ABCDEFGHIJKLMNOPQRSTUVWXYZabcdefghijklmnopqrstuvwxyz0123456789+/''"

definition b64_char :: "nat \<Rightarrow> char" where
  "b64_char n = b64_alphabet ! n"

text \<open>\<open>base64.b64encode\<close>: three bytes give four characters; a last group of one or two
  bytes is filled with zero bits and padded with \<open>=\<close>.\<close>

fun b64encode :: "string \<Rightarrow> string" where
  "b64encode (a # b # c # rest) =
     (let x = (of_char a :: nat); y = (of_char b :: nat); z = (of_char c :: nat)
      in [b64_char (x div 4), b64_char ((x mod 4) * 16 + y div 16),
          b64_char ((y mod 16) * 4 + z div 64), b64_char (z mod 64)] @ b64encode rest)"
| "b64encode [a, b] =
     (let x = (of_char a :: nat); y = (of_char b :: nat)
      in [b64_char (x div 4), b64_char ((x mod 4) * 16 + y div 16),
          b64_char ((y mod 16) * 4), CHR ''=''])"
| "b64encode [a] =
     (let x = (of_char a :: nat)
      in [b64_char (x div 4), b64_char ((x mod 4) * 16), CHR ''='', CHR ''=''])"
| "b64encode [] = []"

text \<open>Base64 decoding as in RFC 4648, the reading of a payload that the round trip of
  the specification refers to: four characters give three bytes, padding is allowed in
  the last group only, and a character outside the alphabet is an error.\<close>

fun index_of :: "'a list \<Rightarrow> 'a \<Rightarrow> nat option" where
  "index_of [] x = None"
| "index_of (y # ys) x = (if x = y then Some 0 else map_option Suc (index_of ys x))"

definition b64_value :: "char \<Rightarrow> nat option" where
  "b64_value c = index_of b64_alphabet c"

definition b64_values :: "string \<Rightarrow> nat list option" where
  "b64_values cs = (if list_all (\<lambda>c. b64_value c \<noteq> None) cs
                    then Some (map (\<lambda>c. the (b64_value c)) cs) else None)"

fun b64decode :: "string \<Rightarrow> string option" where
  "b64decode (c1 # c2 # c3 # c4 # rest) =
     (if c4 = CHR ''='' then
        (if rest \<noteq> [] then None
         else if c3 = CHR ''='' then
           (case b64_values [c1, c2] of
              Some [i, j] \<Rightarrow> Some [char_of (i * 4 + j div 16)]
            | _ \<Rightarrow> None)
         else
           (case b64_values [c1, c2, c3] of
              Some [i, j, k] \<Rightarrow>
                Some [char_of (i * 4 + j div 16), char_of ((j mod 16) * 16 + k div 4)]
            | _ \<Rightarrow> None))
      else
        (case b64_values [c1, c2, c3, c4] of
           Some [i, j, k, l] \<Rightarrow>
             (case b64decode rest of
                None \<Rightarrow> None
              | Some bs \<Rightarrow>
                  Some ([char_of (i * 4 + j div 16), char_of ((j mod 16) * 16 + k div 4),
                         char_of ((k mod 4) * 64 + l)] @ bs))
         | _ \<Rightarrow> None))"
| "b64decode [] = Some []"
| "b64decode _ = None"

section \<open>Manifest generation\<close>

text \<open>
  Each generator builds a dictionary and returns \<open>yaml.dump\<close> of it. The model returns the
  dictionary: the text that \<open>yaml.dump\<close> makes of it is the library's business, and the
  claims speak of the fields of the manifest.
\<close>

definition probe :: "pyval \<Rightarrow> int \<Rightarrow> int \<Rightarrow> pyval" where
  "probe port initial_delay period =
     PDict [(''httpGet'', PDict [(''path'', PStr ''/''), (''port'', port)]),
            (''initialDelaySeconds'', PInt initial_delay),
            (''periodSeconds'', PInt period)]"

text \<open>\<open>env_vars.items()\<close> exists on a dictionary only; the test \<open>if env_vars:\<close> comes first.\<close>

definition env_entries :: "pyval \<Rightarrow> exn + (string \<times> pyval) list" where
  "env_entries env_vars =
     (if \<not> truthy env_vars then Inr []
      else case env_vars of
             PDict kvs \<Rightarrow>
               Inr [(''env'', PList (map (\<lambda>(k, v). PDict [(''name'', PStr k), (''value'', v)]) kvs))]
           | _ \<Rightarrow> Inl AttributeError)"

definition generate_deployment_yaml ::
  "string \<Rightarrow> string \<Rightarrow> pyval \<Rightarrow> string \<Rightarrow> pyval \<Rightarrow> pyval \<Rightarrow> pyval \<Rightarrow> pyval \<Rightarrow> exn + pyval" where
  "generate_deployment_yaml name img replicas ns port cpu_limit memory_limit env_vars =
     (case env_entries env_vars of
        Inl e \<Rightarrow> Inl e
      | Inr env \<Rightarrow>
          (let containers = [PDict ([
                 (''name'', PStr name),
                 (''image'', PStr img),
                 (''ports'', PList [PDict [(''containerPort'', port), (''name'', PStr ''http'')]]),
                 (''resources'', PDict [
                    (''limits'', PDict [(''cpu'', cpu_limit), (''memory'', memory_limit)]),
                    (''requests'', PDict [(''cpu'', PStr ''100m''), (''memory'', PStr ''128Mi'')])]),
                 (''livenessProbe'', probe port 30 10),
                 (''readinessProbe'', probe port 5 5)] @ env)]
           in Inr (PDict [
                 (''apiVersion'', PStr ''apps/v1''),
                 (''kind'', PStr ''Deployment''),
                 (''metadata'', PDict [
                    (''name'', PStr name),
                    (''namespace'', PStr ns),
                    (''labels'', PDict [(''app'', PStr name), (''version'', PStr ''v1'')])]),
                 (''spec'', PDict [
                    (''replicas'', replicas),
                    (''selector'', PDict [(''matchLabels'', PDict [(''app'', PStr name)])]),
                    (''template'', PDict [
                       (''metadata'', PDict [(''labels'',
                          PDict [(''app'', PStr name), (''version'', PStr ''v1'')])]),
                       (''spec'', PDict [
                          (''containers'', PList containers),
                          (''restartPolicy'', PStr ''Always'')])])])])))"

definition generate_service_yaml ::
  "string \<Rightarrow> pyval \<Rightarrow> pyval \<Rightarrow> string \<Rightarrow> pyval \<Rightarrow> pyval" where
  "generate_service_yaml name port target_port ns service_type =
     PDict [
       (''apiVersion'', PStr ''v1''),
       (''kind'', PStr ''Service''),
       (''metadata'', PDict [
          (''name'', PStr (name @ ''-service'')),
          (''namespace'', PStr ns),
          (''labels'', PDict [(''app'', PStr name)])]),
       (''spec'', PDict [
          (''selector'', PDict [(''app'', PStr name)]),
          (''ports'', PList [PDict [(''port'', port), (''targetPort'', target_port),
                                    (''name'', PStr ''http'')]]),
          (''type'', service_type)])]"

text \<open>\<open>{k: base64.b64encode(v.encode()).decode() for k, v in data.items()}\<close>: a string of
  the model is the byte sequence that \<open>v.encode()\<close> yields, and the Base64 text is ASCII.\<close>

definition encoded_data :: "(string \<times> string) list \<Rightarrow> (string \<times> pyval) list" where
  "encoded_data data = map (\<lambda>(k, v). (k, PStr (b64encode v))) data"

definition generate_secret_yaml :: "string \<Rightarrow> (string \<times> string) list \<Rightarrow> string \<Rightarrow> pyval" where
  "generate_secret_yaml name data ns =
     PDict [
       (''apiVersion'', PStr ''v1''),
       (''kind'', PStr ''Secret''),
       (''metadata'', PDict [
          (''name'', PStr (name @ ''-secret'')),
          (''namespace'', PStr ns),
          (''labels'', PDict [(''app'', PStr name)])]),
       (''type'', PStr ''Opaque''),
       (''data'', PDict (encoded_data data))]"

text \<open>Decoding one entry of a secret's \<open>data\<close> section back to a key and a payload.\<close>

definition decode_entry :: "string \<times> pyval \<Rightarrow> (string \<times> string) option" where
  "decode_entry kv =
     (case snd kv of
        PStr e \<Rightarrow> (case b64decode e of None \<Rightarrow> None | Some v \<Rightarrow> Some (fst kv, v))
      | _ \<Rightarrow> None)"

section \<open>The operation executor\<close>

text \<open>
  The world outside the process, as far as the executor touches it: the temporary
  manifest files that exist (path and content) and the command lines handed to
  \<open>subprocess.run\<close> so far. What a process does, which path \<open>NamedTemporaryFile\<close> picks
  and what \<open>json.loads\<close> makes of a text are given by the environment. A process is taken
  not to create or remove manifest files itself.
\<close>

record world =
  files :: "(string \<times> pyval) list"
  invocations :: "string list list"

text \<open>A path exists when it has an entry; writing a file replaces its entry; removing
  a file drops it.\<close>

definition file_exists :: "world \<Rightarrow> string \<Rightarrow> bool" where
  "file_exists w path = (path \<in> fst ` set (files w))"

definition write_file :: "string \<Rightarrow> pyval \<Rightarrow> world \<Rightarrow> world" where
  "write_file path content w =
     w\<lparr>files := (path, content) # filter (\<lambda>kv. fst kv \<noteq> path) (files w)\<rparr>"

definition unlink :: "string \<Rightarrow> world \<Rightarrow> world" where
  "unlink path w = w\<lparr>files := filter (\<lambda>kv. fst kv \<noteq> path) (files w)\<rparr>"

datatype proc_outcome =
    Completed int string string
  | TimeoutExpired
  | FileNotFoundError
  | OtherException string

record env =
  run_process :: "world \<Rightarrow> string list \<Rightarrow> int \<Rightarrow> proc_outcome"
  temp_name :: "world \<Rightarrow> string"
  json_loads :: "string \<Rightarrow> exn + pyval"

record kubectl_result =
  success :: bool
  stdout :: string
  stderr :: string
  returncode :: int

text \<open>\<open>K8sOperations._run_kubectl\<close>. \<open>timeout or self.config.timeout\<close> takes the configured
  timeout when none (or 0) is passed.\<close>

definition run_kubectl ::
  "K8sConfig \<Rightarrow> env \<Rightarrow> world \<Rightarrow> string list \<Rightarrow> int option \<Rightarrow> (exn + kubectl_result) \<times> world" where
  "run_kubectl cfg ev w cmd tmo =
     (let t = (case tmo of None \<Rightarrow> timeout cfg | Some t' \<Rightarrow> if t' = 0 then timeout cfg else t');
          w' = w\<lparr>invocations := invocations w @ [cmd]\<rparr>
      in case run_process ev w cmd t of
           Completed rc out err \<Rightarrow>
             (Inr \<lparr>success = (rc = 0), stdout = out, stderr = err, returncode = rc\<rparr>, w')
         | TimeoutExpired \<Rightarrow> (Inl (ResourceError (KubectlTimedOut t)), w')
         | FileNotFoundError \<Rightarrow> (Inl (ResourceError KubectlNotFound), w')
         | OtherException m \<Rightarrow> (Inl (ResourceError (KubectlFailedToRun m)), w'))"

text \<open>\<open>K8sOperations.apply_yaml\<close>. The file is created with \<open>delete=False\<close>; \<open>os.unlink\<close>
  stands after the call of \<open>_run_kubectl\<close>, so it runs only when that call returns (an
  \<open>OSError\<close> of its own is passed over); the handler \<open>except Exception\<close> logs and raises
  again.\<close>

definition apply_yaml ::
  "K8sConfig \<Rightarrow> env \<Rightarrow> world \<Rightarrow> pyval \<Rightarrow> bool \<Rightarrow> (exn + kubectl_result) \<times> world" where
  "apply_yaml cfg ev w yaml_content dry_run =
     (let temp_file = temp_name ev w;
          w1 = write_file temp_file yaml_content w;
          cmd = [''kubectl'', ''apply'', ''-f'', temp_file]
                  @ (if dry_run then [''--dry-run=client''] else [])
      in case run_kubectl cfg ev w1 cmd None of
           (Inl e, w2) \<Rightarrow> (Inl e, w2)
         | (Inr result, w2) \<Rightarrow>
             (let w3 = unlink temp_file w2
              in if \<not> success result
                 then (Inl (ResourceError (FailedToApply (stderr result))), w3)
                 else (Inr result, w3)))"

text \<open>Sequencing of steps that may raise: the first exception ends the sequence.\<close>

definition and_then :: "exn + 'a \<Rightarrow> ('a \<Rightarrow> exn + 'b) \<Rightarrow> exn + 'b" where
  "and_then r f = (case r of Inl e \<Rightarrow> Inl e | Inr x \<Rightarrow> f x)"

text \<open>\<open>v.get(key, default)\<close> exists on a dictionary only.\<close>

definition py_get :: "pyval \<Rightarrow> string \<Rightarrow> pyval \<Rightarrow> exn + pyval" where
  "py_get v k dflt = (case v of PDict kvs \<Rightarrow> Inr (dict_get kvs k dflt) | _ \<Rightarrow> Inl AttributeError)"

text \<open>\<open>for item in v\<close>: a list gives its elements, a dictionary its keys, a string its
  characters; \<open>None\<close>, a truth value and a number cannot be iterated.\<close>

definition py_iter :: "pyval \<Rightarrow> exn + pyval list" where
  "py_iter v =
     (case v of
        PList xs \<Rightarrow> Inr xs
      | PDict kvs \<Rightarrow> Inr (map (\<lambda>kv. PStr (fst kv)) kvs)
      | PStr s \<Rightarrow> Inr (map (\<lambda>c. PStr [c]) s)
      | _ \<Rightarrow> Inl TypeError)"

definition resource_summary :: "pyval \<Rightarrow> exn + pyval" where
  "resource_summary item =
     and_then (py_get item ''metadata'' (PDict [])) (\<lambda>metadata.
     and_then (py_get metadata ''name'' (PStr [])) (\<lambda>name.
     and_then (py_get metadata ''namespace'' (PStr [])) (\<lambda>ns.
     and_then (py_get metadata ''creationTimestamp'' (PStr [])) (\<lambda>age.
     and_then (py_get item ''status'' (PDict [])) (\<lambda>status.
     and_then (py_get status ''phase'' (PStr [])) (\<lambda>phase.
       Inr (PDict [(''name'', name), (''namespace'', ns), (''age'', age),
                   (''status'', phase)])))))))"

fun resource_summaries :: "pyval list \<Rightarrow> exn + pyval list" where
  "resource_summaries [] = Inr []"
| "resource_summaries (item # items) =
     and_then (resource_summary item) (\<lambda>r.
     and_then (resource_summaries items) (\<lambda>rs. Inr (r # rs)))"

text \<open>The command line of \<open>list_resources\<close>; \<open>-n\<close> is added for a namespace that is
  neither \<open>None\<close> nor empty.\<close>

definition list_cmd :: "string \<Rightarrow> string option \<Rightarrow> string list" where
  "list_cmd resource_type ns =
     [''kubectl'', ''get'', resource_type, ''-o'', ''json'']
       @ (case ns of None \<Rightarrow> [] | Some n \<Rightarrow> if n = [] then [] else [''-n'', n])"

text \<open>\<open>K8sOperations.list_resources\<close>. Whatever \<open>json.loads\<close> raises is logged by the
  handler \<open>except Exception\<close> and raised again unchanged.\<close>

definition list_resources ::
  "K8sConfig \<Rightarrow> env \<Rightarrow> world \<Rightarrow> string \<Rightarrow> string option \<Rightarrow> (exn + pyval list) \<times> world" where
  "list_resources cfg ev w resource_type ns =
     (let cmd = list_cmd resource_type ns
      in case run_kubectl cfg ev w cmd None of
           (Inl e, w1) \<Rightarrow> (Inl e, w1)
         | (Inr result, w1) \<Rightarrow>
             (if \<not> success result
              then (Inl (ResourceError (FailedToList resource_type (stderr result))), w1)
              else (and_then (json_loads ev (stdout result)) (\<lambda>data.
                    and_then (py_get data ''items'' (PList [])) (\<lambda>items.
                    and_then (py_iter items) resource_summaries)), w1)))"

section \<open>The tools\<close>

text \<open>What a validator does with the value that \<open>data.get\<close> hands it. The tests
  \<open>not name\<close>, \<open>not image\<close> and \<open>not namespace\<close> come first and hold for every falsy value;
  \<open>re.match\<close> raises \<open>TypeError\<close> on a value that is not a string, \<open>image.lower()\<close> raises
  \<open>AttributeError\<close>; \<open>isinstance(v, int)\<close> holds for integers and for truth values.\<close>

definition py_validate_name :: "pyval \<Rightarrow> exn + string" where
  "py_validate_name v =
     (case v of
        PStr s \<Rightarrow> validate_name s
      | _ \<Rightarrow> if \<not> truthy v then Inl (ValidationError NameEmpty) else Inl TypeError)"

definition py_validate_image :: "K8sConfig \<Rightarrow> pyval \<Rightarrow> exn + string" where
  "py_validate_image cfg v =
     (case v of
        PStr s \<Rightarrow> validate_image cfg s
      | _ \<Rightarrow> if \<not> truthy v then Inl (ValidationError ImageEmpty)
             else if allowed_images cfg \<noteq> [] then Inl AttributeError
             else Inl TypeError)"

definition py_validate_replicas :: "K8sConfig \<Rightarrow> pyval \<Rightarrow> exn + pyval" where
  "py_validate_replicas cfg v =
     (case v of
        PInt n \<Rightarrow> and_then (validate_replicas cfg n) (\<lambda>r. Inr (PInt r))
      | PBool b \<Rightarrow> and_then (validate_replicas cfg (if b then 1 else 0)) (\<lambda>r. Inr (PBool b))
      | _ \<Rightarrow> Inl (ValidationError ReplicasNotNonNegative))"

definition py_validate_namespace :: "K8sConfig \<Rightarrow> pyval \<Rightarrow> exn + string" where
  "py_validate_namespace cfg v =
     (case v of
        PStr s \<Rightarrow> validate_namespace cfg s
      | _ \<Rightarrow> if \<not> truthy v then validate_namespace cfg [] else Inl TypeError)"

definition py_validate_port :: "pyval \<Rightarrow> exn + pyval" where
  "py_validate_port v =
     (case v of
        PInt n \<Rightarrow> and_then (validate_port n) (\<lambda>r. Inr (PInt r))
      | PBool b \<Rightarrow> and_then (validate_port (if b then 1 else 0)) (\<lambda>r. Inr (PBool b))
      | _ \<Rightarrow> Inl (ValidationError PortRange))"

text \<open>The strings a request can end in, one constructor per \<open>return\<close>.\<close>

datatype reply =
    NoInputProvided
  | HelpDisplayed
  | StatusDisplayed
  | Clarification
  | DeploymentCreated string
  | ServiceCreated string
  | ValidationErrorText validation_msg
  | SecurityErrorText string
  | ResourceErrorText resource_msg
  | ErrorText exn
  | ErrorProcessingDeployment exn
  | ErrorProcessingService exn

text \<open>The \<open>except\<close> clauses of \<open>CreateDeploymentTool._run\<close>, in their order.\<close>

fun deployment_error_text :: "exn \<Rightarrow> reply" where
  "deployment_error_text (ValidationError m) = ValidationErrorText m"
| "deployment_error_text (SecurityError ns) = SecurityErrorText ns"
| "deployment_error_text (ResourceError m) = ResourceErrorText m"
| "deployment_error_text e = ErrorText e"

text \<open>\<open>CreateDeploymentTool._run\<close> up to the generated manifest; \<open>data\<close> is what
  \<open>json.loads(tool_input)\<close> yields.\<close>

definition deployment_manifest :: "K8sConfig \<Rightarrow> pyval \<Rightarrow> exn + (string \<times> string \<times> pyval)" where
  "deployment_manifest cfg data =
     and_then (py_get data ''name'' PNone) (\<lambda>n.
     and_then (py_validate_name n) (\<lambda>name.
     and_then (py_get data ''image'' PNone) (\<lambda>i.
     and_then (py_validate_image cfg i) (\<lambda>img.
     and_then (py_get data ''replicas'' (PInt 1)) (\<lambda>r.
     and_then (py_validate_replicas cfg r) (\<lambda>replicas.
     and_then (py_get data ''namespace'' (PStr ''default'')) (\<lambda>s.
     and_then (py_validate_namespace cfg s) (\<lambda>ns.
     and_then (py_get data ''port'' (PInt 80)) (\<lambda>p.
     and_then (py_validate_port p) (\<lambda>port.
     and_then (py_get data ''cpu_limit'' (PStr ''500m'')) (\<lambda>cpu_limit.
     and_then (py_get data ''memory_limit'' (PStr ''512Mi'')) (\<lambda>memory_limit.
     and_then (py_get data ''env_vars'' (PDict [])) (\<lambda>env_vars.
     and_then (generate_deployment_yaml name img replicas ns port cpu_limit memory_limit env_vars)
       (\<lambda>yaml_content. Inr (name, ns, yaml_content)))))))))))))))"

definition CreateDeploymentTool_run ::
  "K8sConfig \<Rightarrow> env \<Rightarrow> world \<Rightarrow> pyval \<Rightarrow> reply \<times> world" where
  "CreateDeploymentTool_run cfg ev w data =
     (case deployment_manifest cfg data of
        Inl e \<Rightarrow> (deployment_error_text e, w)
      | Inr (name, ns, yaml_content) \<Rightarrow>
          (case apply_yaml cfg ev w yaml_content False of
             (Inl e, w') \<Rightarrow> (deployment_error_text e, w')
           | (Inr result, w') \<Rightarrow> (DeploymentCreated (stdout result), w')))"

text \<open>\<open>CreateServiceTool._run\<close>: one handler, \<open>except Exception\<close>, for every failure.\<close>

definition service_manifest :: "K8sConfig \<Rightarrow> pyval \<Rightarrow> exn + (string \<times> pyval)" where
  "service_manifest cfg data =
     and_then (py_get data ''name'' PNone) (\<lambda>n.
     and_then (py_validate_name n) (\<lambda>name.
     and_then (py_get data ''port'' (PInt 80)) (\<lambda>p.
     and_then (py_validate_port p) (\<lambda>port.
     and_then (py_get data ''target_port'' (PInt 80)) (\<lambda>tp.
     and_then (py_validate_port tp) (\<lambda>target_port.
     and_then (py_get data ''namespace'' (PStr ''default'')) (\<lambda>s.
     and_then (py_validate_namespace cfg s) (\<lambda>ns.
     and_then (py_get data ''service_type'' (PStr ''ClusterIP'')) (\<lambda>service_type.
       Inr (name, generate_service_yaml name port target_port ns service_type))))))))))"

definition CreateServiceTool_run ::
  "K8sConfig \<Rightarrow> env \<Rightarrow> world \<Rightarrow> pyval \<Rightarrow> reply \<times> world" where
  "CreateServiceTool_run cfg ev w data =
     (case service_manifest cfg data of
        Inl e \<Rightarrow> (ErrorText e, w)
      | Inr (name, yaml_content) \<Rightarrow>
          (case apply_yaml cfg ev w yaml_content False of
             (Inl e, w') \<Rightarrow> (ErrorText e, w')
           | (Inr result, w') \<Rightarrow> (ServiceCreated (stdout result), w')))"

section \<open>The agent\<close>

text \<open>\<open>re.search\<close> with one capturing group. \<open>rxg\<close> is \<open>rx\<close> with the text of group 1 carried
  along: a state is what is left of the input and the group's text, if it has matched.\<close>

fun rxg :: "regex \<Rightarrow> string \<times> string option \<Rightarrow> (string \<times> string option) list" where
  "rxg (Cls p) (s, g) = (case s of [] \<Rightarrow> [] | c # cs \<Rightarrow> if p c then [(cs, g)] else [])"
| "rxg (Star p) (s, g) = map (\<lambda>t. (t, g)) (star_rests p s)"
| "rxg (Plus p) (s, g) =
     (case s of [] \<Rightarrow> [] | c # cs \<Rightarrow> if p c then map (\<lambda>t. (t, g)) (star_rests p cs) else [])"
| "rxg (Seq a b) (s, g) = concat (map (rxg b) (rxg a (s, g)))"
| "rxg (Opt a) (s, g) = rxg a (s, g) @ [(s, g)]"
| "rxg (Grp a) (s, g) =
     map (\<lambda>tg. (fst tg, Some (take (length s - length (fst tg)) s))) (rxg a (s, g))"
| "rxg Eol (s, g) = (if s = [] \<or> s = [newline] then [(s, g)] else [])"

text \<open>\<open>re.search(pattern, s)\<close>: the first match at the leftmost position that has one.
  The result is \<open>None\<close> without a match, and otherwise what \<open>group(1)\<close> of the match is.\<close>

fun re_search :: "regex \<Rightarrow> string \<Rightarrow> string option option" where
  "re_search r [] = (case rxg r ([], None) of [] \<Rightarrow> None | tg # _ \<Rightarrow> Some (snd tg))"
| "re_search r (c # cs) =
     (case rxg r (c # cs, None) of [] \<Rightarrow> re_search r cs | tg # _ \<Rightarrow> Some (snd tg))"

text \<open>The classes \<open>\w\<close>, \<open>\s\<close>, \<open>\d\<close> on ASCII, a literal character under
  \<open>re.IGNORECASE\<close>, and a literal word.\<close>

definition word_char :: "char \<Rightarrow> bool" where
  "word_char c = (is_lower c \<or> is_upper c \<or> is_digit c \<or> c = CHR ''_'')"

definition quote_char :: "char \<Rightarrow> bool" where
  "quote_char c = (c = CHR 0x27 \<or> c = CHR 0x22)"

definition ci :: "char \<Rightarrow> regex" where
  "ci a = Cls (\<lambda>c. lower_char c = lower_char a)"

fun ci_word :: "string \<Rightarrow> regex \<Rightarrow> regex" where
  "ci_word [] r = r"
| "ci_word (a # as) r = Seq (ci a) (ci_word as r)"

text \<open>\<open>named?\s+['"]?(\w+)['"]?\<close>\<close>

definition deployment_name_pattern :: regex where
  "deployment_name_pattern =
     ci_word ''name'' (Seq (Opt (ci CHR ''d'')) (Seq (Plus is_space)
       (Seq (Opt (Cls quote_char)) (Seq (Grp (Plus word_char)) (Opt (Cls quote_char))))))"

text \<open>\<open>(\w+)(?::\w+)?\s+image\<close>\<close>

definition image_before_pattern :: regex where
  "image_before_pattern =
     Seq (Grp (Plus word_char)) (Seq (Opt (Seq (Cls (\<lambda>c. c = CHR '':'')) (Plus word_char)))
       (Seq (Plus is_space) (ci_word ''imag'' (ci CHR ''e''))))"

text \<open>\<open>image\s+(\w+)(?::\w+)?\<close>\<close>

definition image_after_pattern :: regex where
  "image_after_pattern =
     ci_word ''image'' (Seq (Plus is_space) (Seq (Grp (Plus word_char))
       (Opt (Seq (Cls (\<lambda>c. c = CHR '':'')) (Plus word_char)))))"

text \<open>\<open>(\d+)\s+replicas?\<close>\<close>

definition replicas_pattern :: regex where
  "replicas_pattern =
     Seq (Grp (Plus is_digit)) (Seq (Plus is_space) (ci_word ''replica'' (Opt (ci CHR ''s''))))"

text \<open>\<open>for\s+['"]?(\w+)['"]?\<close> and \<open>port\s+(\d+)\<close>\<close>

definition service_name_pattern :: regex where
  "service_name_pattern =
     ci_word ''for'' (Seq (Plus is_space)
       (Seq (Opt (Cls quote_char)) (Seq (Grp (Plus word_char)) (Opt (Cls quote_char)))))"

definition port_pattern :: regex where
  "port_pattern = ci_word ''port'' (Seq (Plus is_space) (Grp (Plus is_digit)))"

text \<open>\<open>m.group(1) if m else default\<close>, as the value that goes into the tool input.\<close>

definition group1_or :: "string option option \<Rightarrow> string \<Rightarrow> pyval" where
  "group1_or m dflt =
     (case m of None \<Rightarrow> PStr dflt | Some None \<Rightarrow> PNone | Some (Some g) \<Rightarrow> PStr g)"

text \<open>\<open>int(m.group(1)) if m else default\<close> on a run of decimal digits.\<close>

definition int_of_digits :: "string \<Rightarrow> int" where
  "int_of_digits ds = foldl (\<lambda>n c. 10 * n + (int (of_char c) - 48)) 0 ds"

definition group1_int_or :: "string option option \<Rightarrow> int \<Rightarrow> exn + int" where
  "group1_int_or m dflt =
     (case m of None \<Rightarrow> Inr dflt | Some None \<Rightarrow> Inl TypeError
              | Some (Some g) \<Rightarrow> Inr (int_of_digits g))"

text \<open>The parameters that \<open>_process_deployment_command\<close> takes out of the text.\<close>

definition deployment_command_args :: "string \<Rightarrow> exn + (pyval \<times> pyval \<times> int)" where
  "deployment_command_args user_input =
     (let name = group1_or (re_search deployment_name_pattern user_input) ''webapp'';
          image_match = (case re_search image_before_pattern user_input of
                           None \<Rightarrow> re_search image_after_pattern user_input
                         | Some g \<Rightarrow> Some g);
          img = group1_or image_match ''nginx''
      in and_then (group1_int_or (re_search replicas_pattern user_input) 1)
           (\<lambda>replicas. Inr (name, img, replicas)))"

definition process_deployment_command ::
  "K8sConfig \<Rightarrow> env \<Rightarrow> world \<Rightarrow> string \<Rightarrow> reply \<times> world" where
  "process_deployment_command cfg ev w user_input =
     (case deployment_command_args user_input of
        Inl e \<Rightarrow> (ErrorProcessingDeployment e, w)
      | Inr (name, img, replicas) \<Rightarrow>
          CreateDeploymentTool_run cfg ev w
            (PDict [(''name'', name), (''image'', img), (''replicas'', PInt replicas)]))"

definition service_command_args :: "string \<Rightarrow> exn + (pyval \<times> int)" where
  "service_command_args user_input =
     (let name = group1_or (re_search service_name_pattern user_input) ''webapp''
      in and_then (group1_int_or (re_search port_pattern user_input) 80)
           (\<lambda>port. Inr (name, port)))"

definition process_service_command ::
  "K8sConfig \<Rightarrow> env \<Rightarrow> world \<Rightarrow> string \<Rightarrow> reply \<times> world" where
  "process_service_command cfg ev w user_input =
     (case service_command_args user_input of
        Inl e \<Rightarrow> (ErrorProcessingService e, w)
      | Inr (name, port) \<Rightarrow>
          CreateServiceTool_run cfg ev w (PDict [(''name'', name), (''port'', PInt port)]))"

text \<open>\<open>show_status\<close> asks for the client version and prints; its own handler keeps every
  exception.\<close>

definition show_status :: "K8sConfig \<Rightarrow> env \<Rightarrow> world \<Rightarrow> world" where
  "show_status cfg ev w = snd (run_kubectl cfg ev w [''kubectl'', ''version'', ''--client''] None)"

text \<open>\<open>any(keyword in text for keyword in keywords)\<close>\<close>

definition any_in :: "string list \<Rightarrow> string \<Rightarrow> bool" where
  "any_in keywords text = list_ex (\<lambda>k. contains k text) keywords"

text \<open>The warning of \<open>run\<close> about destructive words is printed and changes nothing else.\<close>

definition warns_dangerous :: "string \<Rightarrow> bool" where
  "warns_dangerous user_input =
     any_in [''delete'', ''remove'', ''destroy'', ''kill''] (lower user_input)"

text \<open>The handlers of the list, scale and logs commands are not part of this development;
  \<open>run\<close> takes them as a parameter.\<close>

datatype other_command = ListCommand | ScaleCommand | LogsCommand

text \<open>\<open>K8sAgent.run\<close>: the tests in the order of the source; the first that holds decides.\<close>

definition run ::
  "K8sConfig \<Rightarrow> env \<Rightarrow> (other_command \<Rightarrow> world \<Rightarrow> string \<Rightarrow> reply \<times> world)
     \<Rightarrow> world \<Rightarrow> string \<Rightarrow> reply \<times> world" where
  "run cfg ev others w user_input =
     (if strip user_input = [] then (NoInputProvided, w)
      else let user_input_lower = lower user_input in
        if any_in [''help'', ''h'', ''?''] user_input_lower then (HelpDisplayed, w)
        else if any_in [''status'', ''info''] user_input_lower
          then (StatusDisplayed, show_status cfg ev w)
        else if contains ''create'' user_input_lower \<and> contains ''deployment'' user_input_lower
          then process_deployment_command cfg ev w user_input
        else if contains ''create'' user_input_lower \<and> contains ''service'' user_input_lower
          then process_service_command cfg ev w user_input
        else if contains ''list'' user_input_lower then others ListCommand w user_input
        else if contains ''scale'' user_input_lower then others ScaleCommand w user_input
        else if contains ''log'' user_input_lower then others LogsCommand w user_input
        else (Clarification, w))"

section \<open>Sample environments\<close>

text \<open>A world with no manifest file and no command run yet.\<close>

definition empty_world :: world where
  "empty_world = \<lparr>files = [], invocations = []\<rparr>"

text \<open>An environment in which the cluster tool never answers within the timeout.\<close>

definition timeout_env :: env where
  "timeout_env = \<lparr>run_process = (\<lambda>w cmd t. TimeoutExpired),
                   temp_name = (\<lambda>w. ''/tmp/tmpmanifest.yaml''),
                   json_loads = (\<lambda>s. Inl (JSONDecodeError s))\<rparr>"

text \<open>An environment in which the cluster tool exits with code 0 and prints a text that
  is not JSON, which \<open>json.loads\<close> answers with \<open>JSONDecodeError\<close>.\<close>

definition not_json_env :: env where
  "not_json_env = \<lparr>run_process = (\<lambda>w cmd t. Completed 0 ''not json'' []),
                    temp_name = (\<lambda>w. ''/tmp/tmpmanifest.yaml''),
                    json_loads = (\<lambda>s. Inl (JSONDecodeError s))\<rparr>"

section \<open>Vocabulary of the dispatcher claims\<close>

text \<open>What a step raised, if it raised.\<close>

definition failure :: "exn + 'a \<Rightarrow> exn option" where
  "failure r = (case r of Inl e \<Rightarrow> Some e | Inr x \<Rightarrow> None)"

fun first_failure :: "exn option list \<Rightarrow> exn option" where
  "first_failure [] = None"
| "first_failure (None # rs) = first_failure rs"
| "first_failure (Some e # rs) = Some e"

text \<open>The guardrail checks of a request, each on the parameter the tool hands it, in the
  order in which \<open>CreateDeploymentTool._run\<close> and \<open>CreateServiceTool._run\<close> make them.\<close>

definition deployment_checks :: "K8sConfig \<Rightarrow> (string \<times> pyval) list \<Rightarrow> exn option list" where
  "deployment_checks cfg kvs =
     [failure (py_validate_name (dict_get kvs ''name'' PNone)),
      failure (py_validate_image cfg (dict_get kvs ''image'' PNone)),
      failure (py_validate_replicas cfg (dict_get kvs ''replicas'' (PInt 1))),
      failure (py_validate_namespace cfg (dict_get kvs ''namespace'' (PStr ''default''))),
      failure (py_validate_port (dict_get kvs ''port'' (PInt 80)))]"

definition service_checks :: "K8sConfig \<Rightarrow> (string \<times> pyval) list \<Rightarrow> exn option list" where
  "service_checks cfg kvs =
     [failure (py_validate_name (dict_get kvs ''name'' PNone)),
      failure (py_validate_port (dict_get kvs ''port'' (PInt 80))),
      failure (py_validate_port (dict_get kvs ''target_port'' (PInt 80))),
      failure (py_validate_namespace cfg (dict_get kvs ''namespace'' (PStr ''default'')))]"

text \<open>The guardrail errors: a \<open>ValidationError\<close>, or the \<open>SecurityError\<close> of a forbidden
  namespace.\<close>

fun guardrail_error :: "exn \<Rightarrow> bool" where
  "guardrail_error (ValidationError m) = True"
| "guardrail_error (SecurityError ns) = True"
| "guardrail_error e = False"

section \<open>What the name pattern accepts\<close>

lemma set_star_rests:
  "set (star_rests p s) = {t. \<exists>u. s = u @ t \<and> (\<forall>c \<in> set u. p c)}"
proof (induction s)
  case Nil
  then show ?case by auto
next
  case (Cons a s)
  show ?case
  proof (rule set_eqI)
    fix t
    show "t \<in> set (star_rests p (a # s)) \<longleftrightarrow> t \<in> {t. \<exists>u. a # s = u @ t \<and> (\<forall>c \<in> set u. p c)}"
    proof
      assume "t \<in> set (star_rests p (a # s))"
      then consider "p a" "t \<in> set (star_rests p s)" | "t = a # s"
        by (auto split: if_splits)
      then show "t \<in> {t. \<exists>u. a # s = u @ t \<and> (\<forall>c \<in> set u. p c)}"
      proof cases
        case 1
        then obtain u where "s = u @ t" "\<forall>c \<in> set u. p c" using Cons.IH by auto
        then have "a # s = (a # u) @ t \<and> (\<forall>c \<in> set (a # u). p c)" using 1 by simp
        then show ?thesis by blast
      next
        case 2
        then have "a # s = [] @ t \<and> (\<forall>c \<in> set ([]::string). p c)" by simp
        then show ?thesis by blast
      qed
    next
      assume "t \<in> {t. \<exists>u. a # s = u @ t \<and> (\<forall>c \<in> set u. p c)}"
      then obtain u where u: "a # s = u @ t" "\<forall>c \<in> set u. p c" by auto
      show "t \<in> set (star_rests p (a # s))"
      proof (cases u)
        case Nil
        then have "t = a # s" using u by simp
        moreover have "a # s \<in> set (star_rests p (a # s))" by simp
        ultimately show ?thesis by (simp only:)
      next
        case (Cons b v)
        then have "p a" "s = v @ t" "\<forall>c \<in> set v. p c" using u by auto
        then have "t \<in> set (star_rests p s)" using Cons.IH by auto
        then show ?thesis using \<open>p a\<close> by simp
      qed
    qed
  qed
qed

lemma set_rx_lang:
  "anchor_free r \<Longrightarrow> set (rx r s) = {t. \<exists>u \<in> lang r. s = u @ t}"
proof (induction r arbitrary: s)
  case (Cls p)
  show ?case by (cases s) auto
next
  case (Star p)
  show ?case by (auto simp: set_star_rests)
next
  case (Plus p)
  show ?case
  proof (cases s)
    case Nil
    then show ?thesis by auto
  next
    case (Cons a cs)
    show ?thesis
    proof (rule set_eqI)
      fix t
      show "t \<in> set (rx (Plus p) s) \<longleftrightarrow> t \<in> {t. \<exists>u \<in> lang (Plus p). s = u @ t}"
      proof
        assume "t \<in> set (rx (Plus p) s)"
        then have "p a" "t \<in> set (star_rests p cs)" using Cons by (auto split: if_splits)
        then obtain u where "cs = u @ t" "\<forall>c \<in> set u. p c" by (auto simp: set_star_rests)
        then have "a # u \<in> lang (Plus p) \<and> s = (a # u) @ t" using Cons \<open>p a\<close> by simp
        then show "t \<in> {t. \<exists>u \<in> lang (Plus p). s = u @ t}" by blast
      next
        assume "t \<in> {t. \<exists>u \<in> lang (Plus p). s = u @ t}"
        then obtain u where u: "u \<noteq> []" "\<forall>c \<in> set u. p c" "s = u @ t" by auto
        then obtain v where v: "u = a # v" using Cons by (cases u) auto
        then have "p a" "cs = v @ t" "\<forall>c \<in> set v. p c" using u Cons by auto
        then have "t \<in> set (star_rests p cs)" by (auto simp: set_star_rests)
        then show "t \<in> set (rx (Plus p) s)" using Cons \<open>p a\<close> by simp
      qed
    qed
  qed
next
  case (Seq a b)
  then have a: "\<And>s. set (rx a s) = {t. \<exists>u \<in> lang a. s = u @ t}"
    and b: "\<And>s. set (rx b s) = {t. \<exists>u \<in> lang b. s = u @ t}" by auto
  show ?case
  proof (rule set_eqI)
    fix t
    have "t \<in> set (rx (Seq a b) s) \<longleftrightarrow> (\<exists>m \<in> set (rx a s). t \<in> set (rx b m))" by auto
    also have "\<dots> \<longleftrightarrow> (\<exists>u \<in> lang a. \<exists>v \<in> lang b. s = u @ v @ t)"
      unfolding a b by blast
    also have "\<dots> \<longleftrightarrow> (\<exists>w \<in> lang (Seq a b). s = w @ t)"
      by (simp, metis append.assoc)
    also have "\<dots> \<longleftrightarrow> t \<in> {t. \<exists>w \<in> lang (Seq a b). s = w @ t}"
      by simp
    finally show "t \<in> set (rx (Seq a b) s) \<longleftrightarrow> t \<in> {t. \<exists>w \<in> lang (Seq a b). s = w @ t}" .
  qed
next
  case (Opt a)
  then show ?case by auto
next
  case (Grp a)
  then show ?case by simp
next
  case Eol
  then show ?case by simp
qed

lemma full_match_lang: "anchor_free r \<Longrightarrow> full_match r s \<longleftrightarrow> s \<in> lang r"
  by (simp add: full_match_def set_rx_lang)

lemma re_match_Eol:
  "anchor_free r \<Longrightarrow>
   re_match (Seq r Eol) s \<longleftrightarrow> s \<in> lang r \<or> (\<exists>b \<in> lang r. s = b @ [newline])"
proof -
  assume af: "anchor_free r"
  have "re_match (Seq r Eol) s \<longleftrightarrow> (\<exists>t \<in> set (rx r s). t = [] \<or> t = [newline])"
    unfolding re_match_def
    by (auto simp: concat_eq_Nil_conv split: if_splits)
  also have "\<dots> \<longleftrightarrow> s \<in> lang r \<or> (\<exists>b \<in> lang r. s = b @ [newline])"
    unfolding set_rx_lang[OF af] by auto
  finally show ?thesis .
qed


lemma lang_SeqI: "u \<in> lang a \<Longrightarrow> v \<in> lang b \<Longrightarrow> u @ v \<in> lang (Seq a b)"
  by auto

lemma strip_id:
  assumes "s \<noteq> []" "\<not> is_space (hd s)" "\<not> is_space (last s)"
  shows "strip s = s"
proof -
  have 1: "dropWhile is_space s = s" using assms by (cases s) auto
  obtain xs x where sx: "s = xs @ [x]" using assms(1) by (cases s rule: rev_cases) auto
  then have "\<not> is_space x" using assms(3) by simp
  then have 2: "dropWhile is_space (rev s) = rev s" unfolding sx by simp
  show ?thesis by (simp add: strip_def 1 2)
qed

lemma strip_trailing_space:
  assumes "s \<noteq> []" "\<not> is_space (hd s)" "\<not> is_space (last s)" "is_space c"
  shows "strip (s @ [c]) = s"
proof -
  have 1: "dropWhile is_space (s @ [c]) = s @ [c]" using assms by (cases s) auto
  obtain xs x where sx: "s = xs @ [x]" using assms(1) by (cases s rule: rev_cases) auto
  then have "\<not> is_space x" using assms(3) by simp
  then have 2: "dropWhile is_space (rev s) = rev s" unfolding sx by simp
  show ?thesis by (simp add: strip_def 1 2 assms(4))
qed

lemma alnum_hyphen_alnum: "alnum c \<Longrightarrow> hyphen_alnum c"
  by (simp add: alnum_def hyphen_alnum_def)

lemma lang_name_body: "s \<in> lang name_body \<longleftrightarrow> k8s_name s"
proof
  assume "s \<in> lang name_body"
  then obtain c v where s: "s = c # v" and c: "alnum c"
    and v: "v = [] \<or> (\<exists>u d. v = u @ [d] \<and> (\<forall>x \<in> set u. hyphen_alnum x) \<and> alnum d)"
    by (auto simp: name_body_def)
  from v show "k8s_name s"
  proof
    assume "v = []"
    then show ?thesis using s c by (simp add: k8s_name_def alnum_hyphen_alnum)
  next
    assume "\<exists>u d. v = u @ [d] \<and> (\<forall>x \<in> set u. hyphen_alnum x) \<and> alnum d"
    then obtain u d where "v = u @ [d]" "\<forall>x \<in> set u. hyphen_alnum x" "alnum d" by blast
    then show ?thesis using s c
      by (auto simp: k8s_name_def alnum_hyphen_alnum list_all_iff)
  qed
next
  assume k: "k8s_name s"
  then obtain c v where s: "s = c # v" by (cases s) (auto simp: k8s_name_def)
  have c: "alnum c" using k s by (simp add: k8s_name_def)
  show "s \<in> lang name_body"
  proof (cases "v = []")
    case True
    have "[c] \<in> lang (Cls alnum)" using c by simp
    moreover have "[] \<in> lang (Opt (Grp (Seq (Star hyphen_alnum) (Cls alnum))))" by simp
    ultimately have "[c] @ [] \<in> lang name_body"
      unfolding name_body_def by (rule lang_SeqI)
    then show ?thesis using s True by simp
  next
    case False
    then have v: "v = butlast v @ [last v]" by simp
    have "alnum (last v)" using k s False by (simp add: k8s_name_def)
    moreover have "\<forall>x \<in> set (butlast v). hyphen_alnum x"
      using k s by (auto simp: k8s_name_def list_all_iff dest: in_set_butlastD)
    ultimately have "butlast v @ [last v] \<in> lang (Seq (Star hyphen_alnum) (Cls alnum))"
      by (intro lang_SeqI) simp_all
    then have "v \<in> lang (Opt (Grp (Seq (Star hyphen_alnum) (Cls alnum))))"
      using v by simp
    moreover have "[c] \<in> lang (Cls alnum)" using c by simp
    ultimately have "[c] @ v \<in> lang name_body"
      unfolding name_body_def by (intro lang_SeqI)
    then show ?thesis using s by simp
  qed
qed

lemma anchor_free_name_body: "anchor_free name_body"
  by (simp add: name_body_def)

lemma full_match_name_body: "full_match name_body s \<longleftrightarrow> k8s_name s"
  by (simp add: full_match_lang anchor_free_name_body lang_name_body)

lemma re_match_name_pattern:
  "re_match name_pattern s \<longleftrightarrow> k8s_name s \<or> (\<exists>b. s = b @ [newline] \<and> k8s_name b)"
  unfolding name_pattern_def
  by (auto simp: re_match_Eol anchor_free_name_body lang_name_body)

lemma hyphen_alnum_not_upper: "hyphen_alnum c \<Longrightarrow> \<not> is_upper c"
  by (auto simp: hyphen_alnum_def is_upper_def is_lower_def is_digit_def)

lemma hyphen_alnum_not_space: "hyphen_alnum c \<Longrightarrow> \<not> is_space c"
  by (auto simp: hyphen_alnum_def is_space_def is_lower_def is_digit_def)

lemma k8s_name_lower: "k8s_name s \<Longrightarrow> lower s = s"
  unfolding lower_def
  by (rule map_idI) (auto simp: k8s_name_def lower_char_def list_all_iff
                          dest: hyphen_alnum_not_upper)

lemma k8s_name_strip: "k8s_name s \<Longrightarrow> strip s = s"
proof -
  assume k: "k8s_name s"
  then have ne: "s \<noteq> []" and h: "\<not> is_space (hd s)" and l: "\<not> is_space (last s)"
    by (auto simp: k8s_name_def list_all_iff dest: alnum_hyphen_alnum hyphen_alnum_not_space)
  show ?thesis using ne h l by (rule strip_id)
qed

lemma is_space_newline: "is_space newline"
  by (simp add: is_space_def newline_def)

lemma not_hyphen_alnum_newline: "\<not> hyphen_alnum newline"
  by (simp add: hyphen_alnum_def newline_def is_lower_def is_digit_def)

lemma lower_char_newline: "lower_char newline = newline"
  by (simp add: lower_char_def is_upper_def newline_def)

lemma k8s_name_newline_strip: "k8s_name b \<Longrightarrow> strip (lower (b @ [newline])) = b"
proof -
  assume k: "k8s_name b"
  then have ne: "b \<noteq> []" and h: "\<not> is_space (hd b)" and l: "\<not> is_space (last b)"
    by (auto simp: k8s_name_def list_all_iff dest: alnum_hyphen_alnum hyphen_alnum_not_space)
  have lo: "lower (b @ [newline]) = b @ [newline]"
    using k8s_name_lower[OF k] by (simp add: lower_def lower_char_newline)
  show ?thesis unfolding lo using ne h l is_space_newline by (rule strip_trailing_space)
qed

lemma validate_name_Inr_iff:
  "(\<exists>r. validate_name n = Inr r) \<longleftrightarrow>
     (k8s_name n \<or> (\<exists>b. n = b @ [newline] \<and> k8s_name b)) \<and> length n \<le> 63"
proof -
  have "re_match name_pattern n \<Longrightarrow> n \<noteq> []"
    by (auto simp: re_match_name_pattern k8s_name_def)
  then show ?thesis
    unfolding validate_name_def by (auto simp: re_match_name_pattern)
qed

lemma validate_name_result:
  assumes "validate_name n = Inr r"
  shows "k8s_name r \<and> length r \<le> 63 \<and> r = strip (lower n)
         \<and> (n = r \<or> n = r @ [newline])"
proof -
  from assms have m: "re_match name_pattern n" and len: "length n \<le> 63"
    and r: "r = strip (lower n)"
    by (auto simp: validate_name_def split: if_splits)
  from m consider "k8s_name n" | b where "n = b @ [newline]" "k8s_name b"
    by (auto simp: re_match_name_pattern)
  then show ?thesis
  proof cases
    case 1
    then show ?thesis using r len by (simp add: k8s_name_lower k8s_name_strip)
  next
    case 2
    then show ?thesis using r len by (simp add: k8s_name_newline_strip)
  qed
qed


section \<open>Claims about the guardrail validator\<close>

lemma validate_name_strict:
  assumes "full_match name_body raw" "length raw \<le> 63"
  shows "validate_name raw = Inr raw"
proof -
  have k: "k8s_name raw" using assms(1) by (simp add: full_match_name_body)
  then have "re_match name_pattern raw" "raw \<noteq> []"
    by (auto simp: re_match_name_pattern k8s_name_def)
  then show ?thesis
    using assms(2) k by (simp add: validate_name_def k8s_name_lower k8s_name_strip)
qed

lemma validate_name_foreign_char:
  assumes "\<exists>c \<in> set raw. c \<noteq> newline \<and> \<not> hyphen_alnum c"
  shows "validate_name raw = Inl (ValidationError NameFormat)"
proof -
  from assms obtain c where c: "c \<in> set raw" "c \<noteq> newline" "\<not> hyphen_alnum c" by blast
  have "\<not> re_match name_pattern raw"
  proof
    assume "re_match name_pattern raw"
    then consider "k8s_name raw" | b where "raw = b @ [newline]" "k8s_name b"
      by (auto simp: re_match_name_pattern)
    then show False
      using c by cases (auto simp: k8s_name_def list_all_iff)
  qed
  moreover have "raw \<noteq> []" using c by auto
  ultimately show ?thesis by (simp add: validate_name_def)
qed

lemma validate_name_errors:
  "validate_name raw = Inl e \<Longrightarrow>
     e = ValidationError NameEmpty \<or> e = ValidationError NameFormat
       \<or> e = ValidationError NameTooLong"
  by (auto simp: validate_name_def split: if_splits)

text \<open>
  C5 as the code has it. \<open>validate_name\<close> tests the raw string, before any lower-casing or
  trimming: a raw string that is itself a name of at most 63 characters is returned
  unchanged; whenever the call succeeds, the value returned is the lower-cased, trimmed
  input, and it is a non-empty name of at most 63 characters; a raw string with a character
  other than a lower-case letter, a digit, a hyphen or a line feed (an upper-case letter, a
  space) is refused with the format error; every failure is a \<open>ValidationError\<close> of the
  name checks.
\<close>

theorem validate_name_raw:
  "(full_match name_body raw \<and> length raw \<le> 63 \<longrightarrow> validate_name raw = Inr raw)
   \<and> (\<forall>r. validate_name raw = Inr r \<longrightarrow>
          r = strip (lower raw) \<and> r \<noteq> [] \<and> length r \<le> 63 \<and> full_match name_body r)
   \<and> ((\<exists>c \<in> set raw. c \<noteq> newline \<and> \<not> hyphen_alnum c) \<longrightarrow>
          validate_name raw = Inl (ValidationError NameFormat))
   \<and> (\<forall>e. validate_name raw = Inl e \<longrightarrow>
          e = ValidationError NameEmpty \<or> e = ValidationError NameFormat
            \<or> e = ValidationError NameTooLong)"
proof (intro conjI allI impI)
  show "validate_name raw = Inr raw" if "full_match name_body raw \<and> length raw \<le> 63"
    using that validate_name_strict by blast
next
  fix r assume r: "validate_name raw = Inr r"
  from validate_name_result[OF r]
  show "r = strip (lower raw)" "r \<noteq> []" "length r \<le> 63" "full_match name_body r"
    by (auto simp: full_match_name_body k8s_name_def)
next
  show "validate_name raw = Inl (ValidationError NameFormat)"
    if "\<exists>c \<in> set raw. c \<noteq> newline \<and> \<not> hyphen_alnum c"
    using that by (rule validate_name_foreign_char)
next
  fix e assume "validate_name raw = Inl e"
  then show "e = ValidationError NameEmpty \<or> e = ValidationError NameFormat
     \<or> e = ValidationError NameTooLong"
    by (rule validate_name_errors)
qed

theorem validate_name_raw_witness:
  "full_match name_body ''api'' \<and> length ''api'' \<le> 63
   \<and> validate_name ''api'' = Inr ''api''
   \<and> ''api'' = strip (lower ''api'')
   \<and> (\<exists>c \<in> set ''my app''. c \<noteq> newline \<and> \<not> hyphen_alnum c)
   \<and> validate_name ''my app'' = Inl (ValidationError NameFormat)"
proof -
  have h1: "full_match name_body ''api'' \<and> length ''api'' \<le> 63" by code_simp
  have h2: "\<exists>c \<in> set ''my app''. c \<noteq> newline \<and> \<not> hyphen_alnum c" by code_simp
  have a: "validate_name ''api'' = Inr ''api''"
    using validate_name_raw[of "''api''"] h1 by blast
  then have b: "''api'' = strip (lower ''api'')"
    using validate_name_raw[of "''api''"] by blast
  have c: "validate_name ''my app'' = Inl (ValidationError NameFormat)"
    using validate_name_raw[of "''my app''"] h2 by blast
  show ?thesis using h1 h2 a b c by blast
qed

text \<open>
  C5 as the specification words it fails: \<open>API\<close> lower-cased and trimmed is \<open>api\<close>, which is
  not empty, has 3 characters and matches the pattern, yet \<open>validate_name\<close> refuses \<open>API\<close>.
\<close>

theorem validate_name_normalised_counterexample:
  "strip (lower ''API'') = ''api''
   \<and> ''api'' \<noteq> [] \<and> length ''api'' \<le> 63 \<and> full_match name_body ''api''
   \<and> validate_name ''API'' = Inl (ValidationError NameFormat)"
  by code_simp

text \<open>
  C6: the name pattern is meant to cover the whole string, but Python's \<open>$\<close> also holds
  before a final line feed: \<open>validate_name\<close> accepts \<open>abc\<close> followed by a line feed, a
  string that does not match the pattern.
\<close>

theorem validate_name_trailing_newline:
  "validate_name (''abc'' @ [newline]) = Inr ''abc''
   \<and> \<not> full_match name_body (''abc'' @ [newline])
   \<and> length (''abc'' @ [newline]) \<le> 63"
  by code_simp

text \<open>Apart from a final line feed, success is exactly the pattern and the length bound.\<close>

lemma validate_name_iff_no_newline:
  assumes "n = [] \<or> last n \<noteq> newline"
  shows "(\<exists>r. validate_name n = Inr r) \<longleftrightarrow> full_match name_body n \<and> length n \<le> 63"
  using assms by (auto simp: validate_name_Inr_iff full_match_name_body)

text \<open>
  C4 as the code has it. The forbidden test is an exact, case-sensitive membership test
  on the namespace as given (or on the configured default when none is given), and it
  runs first: a member of the forbidden set fails with \<open>SecurityError\<close>. A namespace that
  has an upper-case letter and is not itself a member fails with the format
  \<open>ValidationError\<close> of the name check instead.
\<close>

theorem validate_namespace_forbidden_exact:
  "((if ns = [] then namespace cfg else ns) \<in> set (forbidden_namespaces cfg) \<longrightarrow>
      validate_namespace cfg ns = Inl (SecurityError (if ns = [] then namespace cfg else ns)))
   \<and> ((\<exists>c \<in> set ns. is_upper c) \<and> ns \<notin> set (forbidden_namespaces cfg) \<longrightarrow>
      validate_namespace cfg ns = Inl (ValidationError NameFormat))"
proof (intro conjI impI)
  assume "(if ns = [] then namespace cfg else ns) \<in> set (forbidden_namespaces cfg)"
  then show "validate_namespace cfg ns
     = Inl (SecurityError (if ns = [] then namespace cfg else ns))"
    by (simp add: validate_namespace_def Let_def)
next
  assume a: "(\<exists>c \<in> set ns. is_upper c) \<and> ns \<notin> set (forbidden_namespaces cfg)"
  then obtain c where c: "c \<in> set ns" "is_upper c" by blast
  have "c \<noteq> newline" using c(2) by (auto simp: is_upper_def newline_def)
  moreover have "\<not> hyphen_alnum c" using c(2) hyphen_alnum_not_upper by blast
  ultimately have "validate_name ns = Inl (ValidationError NameFormat)"
    using c(1) by (intro validate_name_foreign_char) blast
  moreover have "ns \<noteq> []" using c(1) by auto
  ultimately show "validate_namespace cfg ns = Inl (ValidationError NameFormat)"
    using a by (simp add: validate_namespace_def Let_def)
qed

theorem validate_namespace_forbidden_exact_witness:
  "''kube-system'' \<in> set (forbidden_namespaces default_config)
   \<and> validate_namespace default_config ''kube-system'' = Inl (SecurityError ''kube-system'')
   \<and> (\<exists>c \<in> set ''Kube-System''. is_upper c)
   \<and> ''Kube-System'' \<notin> set (forbidden_namespaces default_config)
   \<and> validate_namespace default_config ''Kube-System'' = Inl (ValidationError NameFormat)"
proof -
  have h1: "(if ''kube-system'' = [] then namespace default_config else ''kube-system'')
      \<in> set (forbidden_namespaces default_config)" by code_simp
  have h2: "(\<exists>c \<in> set ''Kube-System''. is_upper c)
      \<and> ''Kube-System'' \<notin> set (forbidden_namespaces default_config)" by code_simp
  have a: "validate_namespace default_config ''kube-system'' = Inl (SecurityError ''kube-system'')"
    using validate_namespace_forbidden_exact[of "''kube-system''" default_config] h1 by simp
  have b: "validate_namespace default_config ''Kube-System'' = Inl (ValidationError NameFormat)"
    using validate_namespace_forbidden_exact[of "''Kube-System''" default_config] h2 by blast
  show ?thesis using h1 h2 a b by simp
qed

text \<open>
  C4 as the specification words it fails: \<open>KUBE-SYSTEM\<close> lower-cased is the forbidden
  \<open>kube-system\<close>, but the call fails with the \<open>ValidationError\<close> of the name check, not with
  \<open>SecurityError\<close>.
\<close>

theorem validate_namespace_case_counterexample:
  "strip (lower ''KUBE-SYSTEM'') \<in> set (forbidden_namespaces default_config)
   \<and> validate_namespace default_config ''KUBE-SYSTEM'' = Inl (ValidationError NameFormat)
   \<and> validate_namespace default_config ''KUBE-SYSTEM''
       \<noteq> Inl (SecurityError ''KUBE-SYSTEM'')"
  by code_simp

text \<open>
  C10: a namespace returned by \<open>validate_namespace\<close> should never be forbidden, but the
  membership test sees the raw string and the name check lets a final line feed through
  and strips it: \<open>kube-system\<close> followed by a line feed comes back as \<open>kube-system\<close>.
\<close>

theorem validate_namespace_newline_bypass:
  "validate_namespace default_config (''kube-system'' @ [newline]) = Inr ''kube-system''
   \<and> ''kube-system'' \<in> set (forbidden_namespaces default_config)"
  by code_simp

text \<open>A namespace that is returned never has an upper-case letter, and it is the forbidden
  one only when the input was that namespace followed by a line feed.\<close>

lemma validate_namespace_no_upper:
  assumes "validate_namespace cfg ns = Inr r"
  shows "\<forall>c \<in> set r. \<not> is_upper c"
proof -
  from assms have "validate_name (if ns = [] then namespace cfg else ns) = Inr r"
    by (auto simp: validate_namespace_def Let_def split: if_splits)
  from validate_name_result[OF this] have "k8s_name r" by blast
  then show ?thesis
    by (auto simp: k8s_name_def list_all_iff dest: hyphen_alnum_not_upper)
qed

lemma validate_namespace_forbidden_only_newline:
  assumes "validate_namespace cfg ns = Inr r" and "r \<in> set (forbidden_namespaces cfg)"
  shows "(if ns = [] then namespace cfg else ns) = r @ [newline]"
proof -
  let ?n = "if ns = [] then namespace cfg else ns"
  from assms(1) have nf: "?n \<notin> set (forbidden_namespaces cfg)" and v: "validate_name ?n = Inr r"
    by (auto simp: validate_namespace_def Let_def split: if_splits)
  from validate_name_result[OF v] have "?n = r \<or> ?n = r @ [newline]" by blast
  then show ?thesis using nf assms(2) by auto
qed

text \<open>Without a final line feed the namespace returned is the one tested, so it is not
  forbidden.\<close>

lemma validate_namespace_not_forbidden:
  assumes "validate_namespace cfg ns = Inr r"
    and "last (if ns = [] then namespace cfg else ns) \<noteq> newline"
  shows "r \<notin> set (forbidden_namespaces cfg) \<and> (\<forall>c \<in> set r. \<not> is_upper c)"
proof -
  let ?n = "if ns = [] then namespace cfg else ns"
  from assms(1) have nf: "?n \<notin> set (forbidden_namespaces cfg)" and v: "validate_name ?n = Inr r"
    by (auto simp: validate_namespace_def Let_def split: if_splits)
  from validate_name_result[OF v] have k: "k8s_name r" and d: "?n = r \<or> ?n = r @ [newline]"
    by blast+
  have "?n \<noteq> r @ [newline]"
  proof
    assume "?n = r @ [newline]"
    then have "last ?n = newline" by (simp only: last_snoc)
    then show False using assms(2) by simp
  qed
  then have "?n = r" using d by blast
  then have "r \<notin> set (forbidden_namespaces cfg)" using nf by simp
  moreover have "\<forall>c \<in> set r. \<not> is_upper c"
    using k by (auto simp: k8s_name_def list_all_iff dest: hyphen_alnum_not_upper)
  ultimately show ?thesis by blast
qed

text \<open>
  C9: with the allowed-image list set to the empty list (not left unset, which installs
  the six default entries), \<open>validate_image\<close> makes no containment test: an image is
  accepted exactly when it is not empty and passes the format check.
\<close>

theorem validate_image_empty_allow_list:
  "validate_image (K8sConfig_init ns t m (Some []) f) img =
     (if img = [] then Inl (ValidationError ImageEmpty)
      else if re_match image_pattern img then Inr (strip img)
      else Inl (ValidationError ImageFormat))
   \<and> allowed_images (K8sConfig_init ns t m None f) \<noteq> []"
  by (simp add: validate_image_def K8sConfig_init_def post_init_allowed_images_def)

theorem validate_image_empty_allow_list_witness:
  "validate_image (K8sConfig_init ''default'' 30 10 (Some []) None) ''notallowed:latest''
     = Inr ''notallowed:latest''
   \<and> validate_image (K8sConfig_init ''default'' 30 10 None None) ''notallowed:latest''
     = Inl (ValidationError (ImageNotAllowed
         [''nginx'', ''httpd'', ''redis'', ''postgres'', ''mysql'', ''mongo'']))"
proof -
  have f: "re_match image_pattern ''notallowed:latest''
      \<and> strip ''notallowed:latest'' = ''notallowed:latest''" by code_simp
  have a: "validate_image (K8sConfig_init ''default'' 30 10 (Some []) None) ''notallowed:latest''
     = Inr ''notallowed:latest''"
    using validate_image_empty_allow_list[of "''default''" 30 10 None "''notallowed:latest''"] f
    by simp
  have b: "validate_image (K8sConfig_init ''default'' 30 10 None None) ''notallowed:latest''
     = Inl (ValidationError (ImageNotAllowed
         [''nginx'', ''httpd'', ''redis'', ''postgres'', ''mysql'', ''mongo'']))"
    by code_simp
  show ?thesis using a b by simp
qed


section \<open>Base64 round trip\<close>

lemma b64_alphabet_length: "length b64_alphabet = 64"
  by (simp add: b64_alphabet_def)

lemma b64_alphabet_distinct: "distinct b64_alphabet"
  by (simp add: b64_alphabet_def)

lemma index_of_nth: "distinct xs \<Longrightarrow> n < length xs \<Longrightarrow> index_of xs (xs ! n) = Some n"
proof (induction xs arbitrary: n)
  case Nil
  then show ?case by simp
next
  case (Cons a xs)
  show ?case
  proof (cases n)
    case 0
    then show ?thesis by simp
  next
    case (Suc m)
    then have "xs ! m \<noteq> a" using Cons.prems by auto
    then show ?thesis using Suc Cons by simp
  qed
qed

lemma b64_value_char: "n < 64 \<Longrightarrow> b64_value (b64_char n) = Some n"
  unfolding b64_value_def b64_char_def
  by (rule index_of_nth) (simp_all add: b64_alphabet_distinct b64_alphabet_length)

lemma b64_char_not_pad: "n < 64 \<Longrightarrow> b64_char n \<noteq> CHR ''=''"
proof -
  assume "n < 64"
  then have "b64_char n \<in> set b64_alphabet"
    unfolding b64_char_def by (simp add: b64_alphabet_length)
  moreover have "CHR ''='' \<notin> set b64_alphabet" by (simp add: b64_alphabet_def)
  ultimately show ?thesis by auto
qed

lemma b64_values_chars:
  "\<forall>n \<in> set ns. n < 64 \<Longrightarrow> b64_values (map b64_char ns) = Some ns"
  unfolding b64_values_def
  by (auto simp: list_all_iff b64_value_char map_idI)

lemma of_char_lt: "(of_char (c::char) :: nat) < 256"
  by simp

lemma div_lt: "(y::nat) < 256 \<Longrightarrow> y div 16 < 16" "(z::nat) < 256 \<Longrightarrow> z div 64 < 4"
  "(x::nat) < 256 \<Longrightarrow> x div 4 < 64"
  by (simp_all add: less_mult_imp_div_less)

lemma pack_div: "(b::nat) < n \<Longrightarrow> (a * n + b) div n = a"
  by simp

lemma pack_mod: "(b::nat) < n \<Longrightarrow> (a * n + b) mod n = b"
  by simp

lemma sextets:
  fixes x y z :: nat
  assumes "x < 256" "y < 256" "z < 256"
  shows "x div 4 < 64" "(x mod 4) * 16 + y div 16 < 64" "(y mod 16) * 4 + z div 64 < 64"
    "z mod 64 < 64" "(x mod 4) * 16 < 64" "(y mod 16) * 4 < 64"
proof -
  have a: "x mod 4 < 4" "y mod 16 < 16" by simp_all
  have b: "y div 16 < 16" "z div 64 < 4" using assms div_lt by blast+
  show "x div 4 < 64" using assms div_lt by blast
  show "(x mod 4) * 16 + y div 16 < 64" using a(1) b(1) by linarith
  show "(y mod 16) * 4 + z div 64 < 64" using a(2) b(2) by linarith
  show "z mod 64 < 64" by simp
  show "(x mod 4) * 16 < 64" using a(1) by linarith
  show "(y mod 16) * 4 < 64" using a(2) by linarith
qed

lemma octets:
  fixes x y z :: nat
  assumes "x < 256" "y < 256" "z < 256"
  shows "(x div 4) * 4 + ((x mod 4) * 16 + y div 16) div 16 = x"
    "(((x mod 4) * 16 + y div 16) mod 16) * 16 + ((y mod 16) * 4 + z div 64) div 4 = y"
    "(((y mod 16) * 4 + z div 64) mod 4) * 64 + z mod 64 = z"
    "(x div 4) * 4 + ((x mod 4) * 16) div 16 = x"
    "(((x mod 4) * 16 + y div 16) mod 16) * 16 + ((y mod 16) * 4) div 4 = y"
proof -
  have b: "y div 16 < 16" "z div 64 < 4" using assms div_lt by blast+
  have 1: "((x mod 4) * 16 + y div 16) div 16 = x mod 4" using b(1) by (rule pack_div)
  have 2: "((x mod 4) * 16 + y div 16) mod 16 = y div 16" using b(1) by (rule pack_mod)
  have 3: "((y mod 16) * 4 + z div 64) div 4 = y mod 16" using b(2) by (rule pack_div)
  have 4: "((y mod 16) * 4 + z div 64) mod 4 = z div 64" using b(2) by (rule pack_mod)
  show "(x div 4) * 4 + ((x mod 4) * 16 + y div 16) div 16 = x" unfolding 1 by simp
  show "(((x mod 4) * 16 + y div 16) mod 16) * 16 + ((y mod 16) * 4 + z div 64) div 4 = y"
    unfolding 2 3 by simp
  show "(((y mod 16) * 4 + z div 64) mod 4) * 64 + z mod 64 = z" unfolding 4 by simp
  show "(x div 4) * 4 + ((x mod 4) * 16) div 16 = x" by simp
  show "(((x mod 4) * 16 + y div 16) mod 16) * 16 + ((y mod 16) * 4) div 4 = y"
    unfolding 2 by simp
qed

lemma b64decode_b64encode: "b64decode (b64encode bs) = Some bs"
proof (induction bs rule: b64encode.induct)
  case (1 a b c rest)
  define x y z where "x = (of_char a :: nat)" and "y = (of_char b :: nat)" and "z = (of_char c :: nat)"
  have lt: "x < 256" "y < 256" "z < 256" by (simp_all add: x_def y_def z_def)
  let ?i = "x div 4" and ?j = "(x mod 4) * 16 + y div 16"
    and ?k = "(y mod 16) * 4 + z div 64" and ?l = "z mod 64"
  have v: "b64_values [b64_char ?i, b64_char ?j, b64_char ?k, b64_char ?l] = Some [?i, ?j, ?k, ?l]"
    using b64_values_chars[of "[?i, ?j, ?k, ?l]"] sextets[OF lt] by simp
  have np: "b64_char ?l \<noteq> CHR ''=''" using sextets[OF lt] by (intro b64_char_not_pad)
  have e: "b64encode (a # b # c # rest)
      = b64_char ?i # b64_char ?j # b64_char ?k # b64_char ?l # b64encode rest"
    by (simp add: x_def y_def z_def Let_def)
  have "b64decode (b64encode (a # b # c # rest))
      = Some ([char_of (?i * 4 + ?j div 16), char_of ((?j mod 16) * 16 + ?k div 4),
               char_of ((?k mod 4) * 64 + ?l)] @ rest)"
    unfolding e using v np "1.IH" by simp
  also have "\<dots> = Some ([char_of x, char_of y, char_of z] @ rest)"
    by (simp only: octets[OF lt])
  also have "\<dots> = Some (a # b # c # rest)"
    by (simp add: x_def y_def z_def)
  finally show ?case .
next
  case (2 a b)
  define x y where "x = (of_char a :: nat)" and "y = (of_char b :: nat)"
  have lt: "x < 256" "y < 256" "(0::nat) < 256" by (simp_all add: x_def y_def)
  let ?i = "x div 4" and ?j = "(x mod 4) * 16 + y div 16" and ?k = "(y mod 16) * 4"
  have v: "b64_values [b64_char ?i, b64_char ?j, b64_char ?k] = Some [?i, ?j, ?k]"
    using b64_values_chars[of "[?i, ?j, ?k]"] sextets[OF lt] by simp
  have np: "b64_char ?k \<noteq> CHR ''=''" using sextets[OF lt] by (intro b64_char_not_pad)
  have e: "b64encode [a, b] = [b64_char ?i, b64_char ?j, b64_char ?k, CHR ''='']"
    by (simp add: x_def y_def Let_def)
  have "b64decode (b64encode [a, b])
      = Some [char_of (?i * 4 + ?j div 16), char_of ((?j mod 16) * 16 + ?k div 4)]"
    unfolding e using v np by simp
  also have "\<dots> = Some [char_of x, char_of y]"
    by (simp only: octets[OF lt])
  also have "\<dots> = Some [a, b]" by (simp add: x_def y_def)
  finally show ?case .
next
  case (3 a)
  define x where "x = (of_char a :: nat)"
  have lt: "x < 256" "(0::nat) < 256" "(0::nat) < 256" by (simp_all add: x_def)
  let ?i = "x div 4" and ?j = "(x mod 4) * 16"
  have v: "b64_values [b64_char ?i, b64_char ?j] = Some [?i, ?j]"
    using b64_values_chars[of "[?i, ?j]"] sextets[OF lt] by simp
  have e: "b64encode [a] = [b64_char ?i, b64_char ?j, CHR ''='', CHR ''='']"
    by (simp add: x_def Let_def)
  have "b64decode (b64encode [a]) = Some [char_of (?i * 4 + ?j div 16)]"
    unfolding e using v by simp
  also have "\<dots> = Some [char_of x]"
    by (simp only: octets[OF lt])
  also have "\<dots> = Some [a]" by (simp add: x_def)
  finally show ?case .
next
  case 4
  show ?case by simp
qed

lemma map_decode_entry: "map decode_entry (encoded_data data) = map Some data"
  by (induction data) (auto simp: encoded_data_def decode_entry_def b64decode_b64encode)

text \<open>
  C8: the \<open>data\<close> section of a generated secret manifest holds, key by key and in the
  order of the input, the Base64 text of each input value, and decoding each entry gives
  back the original key and value.
\<close>

theorem secret_round_trip:
  "\<exists>enc. field_at [''data''] (generate_secret_yaml name data ns) = Some (PDict enc)
         \<and> map decode_entry enc = map Some data"
proof -
  have "field_at [''data''] (generate_secret_yaml name data ns) = Some (PDict (encoded_data data))"
    by (simp add: generate_secret_yaml_def)
  then show ?thesis using map_decode_entry by blast
qed

theorem secret_round_trip_witness:
  "field_at [''data''] (generate_secret_yaml ''db'' [(''password'', ''hunter2'')] ''prod'')
     = Some (PDict [(''password'', PStr ''aHVudGVyMg=='')])
   \<and> decode_entry (''password'', PStr ''aHVudGVyMg=='') = Some (''password'', ''hunter2'')"
proof -
  have f: "field_at [''data''] (generate_secret_yaml ''db'' [(''password'', ''hunter2'')] ''prod'')
     = Some (PDict [(''password'', PStr ''aHVudGVyMg=='')])"
    by code_simp
  obtain enc where
    e: "field_at [''data''] (generate_secret_yaml ''db'' [(''password'', ''hunter2'')] ''prod'')
          = Some (PDict enc)"
    and d: "map decode_entry enc = map Some [(''password'', ''hunter2'')]"
    using secret_round_trip[of "''db''" "[(''password'', ''hunter2'')]" "''prod''"] by blast
  from e f have "enc = [(''password'', PStr ''aHVudGVyMg=='')]" by simp
  with d have "decode_entry (''password'', PStr ''aHVudGVyMg=='') = Some (''password'', ''hunter2'')"
    by simp
  with f show ?thesis by simp
qed


section \<open>Claims about the executor\<close>

lemma run_kubectl_invocations:
  "invocations (snd (run_kubectl cfg ev w cmd tmo)) = invocations w @ [cmd]"
  "files (snd (run_kubectl cfg ev w cmd tmo)) = files w"
  by (simp_all add: run_kubectl_def Let_def split: proc_outcome.splits)

lemma file_exists_write_file: "file_exists (write_file path content w) path"
  by (simp add: file_exists_def write_file_def)

lemma not_file_exists_unlink: "\<not> file_exists (unlink path w) path"
  by (auto simp: file_exists_def unlink_def)

text \<open>When the process does not answer in time, \<open>apply_yaml\<close> fails with the time-out
  \<open>ResourceError\<close> and the temporary manifest file is still there.\<close>

lemma apply_yaml_timeout:
  assumes "run_process ev (write_file (temp_name ev w) y w)
             ([''kubectl'', ''apply'', ''-f'', temp_name ev w]
                @ (if dry_run then [''--dry-run=client''] else [])) (timeout cfg) = TimeoutExpired"
  shows "fst (apply_yaml cfg ev w y dry_run) = Inl (ResourceError (KubectlTimedOut (timeout cfg)))"
    and "file_exists (snd (apply_yaml cfg ev w y dry_run)) (temp_name ev w)"
  using assms
  by (simp_all add: apply_yaml_def run_kubectl_def Let_def file_exists_def write_file_def)

text \<open>When the process runs to its end, whatever its exit code, the file is removed.\<close>

lemma apply_yaml_completed:
  assumes "run_process ev (write_file (temp_name ev w) y w)
             ([''kubectl'', ''apply'', ''-f'', temp_name ev w]
                @ (if dry_run then [''--dry-run=client''] else [])) (timeout cfg)
           = Completed rc out err"
  shows "\<not> file_exists (snd (apply_yaml cfg ev w y dry_run)) (temp_name ev w)"
  using assms
  by (auto simp: apply_yaml_def run_kubectl_def Let_def file_exists_def write_file_def
                 unlink_def)

text \<open>
  C2: the temporary manifest file should be gone after every call of \<open>apply_yaml\<close>, but
  the removal stands after the process call and not in a \<open>finally\<close> clause: when the
  process exceeds the timeout of 30 seconds, the call fails with the time-out error and
  the file that did not exist before the call exists after it.
\<close>

theorem apply_yaml_timeout_leaves_file:
  "fst (apply_yaml default_config timeout_env empty_world (PStr ''kind: Service'') False)
     = Inl (ResourceError (KubectlTimedOut 30))
   \<and> \<not> file_exists empty_world ''/tmp/tmpmanifest.yaml''
   \<and> file_exists
        (snd (apply_yaml default_config timeout_env empty_world (PStr ''kind: Service'') False))
        ''/tmp/tmpmanifest.yaml''"
  by code_simp

text \<open>
  C3 as the code has it. When the tool exits with code 0 and \<open>json.loads\<close> raises on its
  output, \<open>list_resources\<close> fails with that very exception, after one command and with no
  other effect; when the tool exits with another code, \<open>list_resources\<close> fails with the
  \<open>ResourceError\<close> that carries the standard-error text, and the output is not parsed.
\<close>

theorem list_resources_parse_error:
  "(run_process ev w (list_cmd resource_type ns) (timeout cfg) = Completed 0 out err
      \<and> json_loads ev out = Inl e \<longrightarrow>
    list_resources cfg ev w resource_type ns
      = (Inl e, w\<lparr>invocations := invocations w @ [list_cmd resource_type ns]\<rparr>))
   \<and> (run_process ev w (list_cmd resource_type ns) (timeout cfg) = Completed rc out err
      \<and> rc \<noteq> 0 \<longrightarrow>
    list_resources cfg ev w resource_type ns
      = (Inl (ResourceError (FailedToList resource_type err)),
         w\<lparr>invocations := invocations w @ [list_cmd resource_type ns]\<rparr>))"
  by (simp add: list_resources_def list_cmd_def run_kubectl_def Let_def and_then_def)

theorem list_resources_parse_error_witness:
  "run_process not_json_env empty_world (list_cmd ''pods'' None) (timeout default_config)
     = Completed 0 ''not json'' []
   \<and> json_loads not_json_env ''not json'' = Inl (JSONDecodeError ''not json'')
   \<and> list_resources default_config not_json_env empty_world ''pods'' None
     = (Inl (JSONDecodeError ''not json''),
        empty_world\<lparr>invocations := invocations empty_world @ [list_cmd ''pods'' None]\<rparr>)"
proof -
  have h: "run_process not_json_env empty_world (list_cmd ''pods'' None) (timeout default_config)
       = Completed 0 ''not json'' []
     \<and> json_loads not_json_env ''not json'' = Inl (JSONDecodeError ''not json'')"
    by (simp add: not_json_env_def)
  then show ?thesis
    using list_resources_parse_error[of not_json_env empty_world "''pods''" None default_config
        "''not json''" "[]" "JSONDecodeError ''not json''"]
    by blast
qed

text \<open>
  C3 as the specification words it fails: on the output \<open>not json\<close> with exit code 0 the
  call fails with the raw \<open>JSONDecodeError\<close>, which is none of the classified errors.
\<close>

theorem list_resources_raw_exception_counterexample:
  "fst (list_resources default_config not_json_env empty_world ''pods'' None)
     = Inl (JSONDecodeError ''not json'')
   \<and> \<not> is_K8sError (JSONDecodeError ''not json'')"
  by code_simp

section \<open>Claims about the dispatcher\<close>

lemma first_failure_None: "first_failure rs = None \<longleftrightarrow> (\<forall>r \<in> set rs. r = None)"
  by (induction rs rule: first_failure.induct) auto

lemma first_failure_mem: "first_failure rs = Some e \<Longrightarrow> Some e \<in> set rs"
  by (induction rs rule: first_failure.induct) auto

lemma deployment_manifest_first_failure:
  assumes "first_failure (deployment_checks cfg kvs) = Some e"
  shows "deployment_manifest cfg (PDict kvs) = Inl e"
proof -
  define vn where "vn = py_validate_name (dict_get kvs ''name'' PNone)"
  define vi where "vi = py_validate_image cfg (dict_get kvs ''image'' PNone)"
  define vr where "vr = py_validate_replicas cfg (dict_get kvs ''replicas'' (PInt 1))"
  define vs where "vs = py_validate_namespace cfg (dict_get kvs ''namespace'' (PStr ''default''))"
  define vp where "vp = py_validate_port (dict_get kvs ''port'' (PInt 80))"
  note defs = vn_def[symmetric] vi_def[symmetric] vr_def[symmetric] vs_def[symmetric]
    vp_def[symmetric]
  have m: "deployment_manifest cfg (PDict kvs) =
     and_then vn (\<lambda>name. and_then vi (\<lambda>img. and_then vr (\<lambda>replicas.
     and_then vs (\<lambda>ns. and_then vp (\<lambda>port.
     and_then (generate_deployment_yaml name img replicas ns port
                 (dict_get kvs ''cpu_limit'' (PStr ''500m''))
                 (dict_get kvs ''memory_limit'' (PStr ''512Mi''))
                 (dict_get kvs ''env_vars'' (PDict [])))
       (\<lambda>yaml_content. Inr (name, ns, yaml_content)))))))"
    by (simp add: deployment_manifest_def py_get_def and_then_def defs)
  have c: "first_failure [failure vn, failure vi, failure vr, failure vs, failure vp] = Some e"
    using assms by (simp add: deployment_checks_def defs)
  show ?thesis
    unfolding m using c
    by (cases vn; cases vi; cases vr; cases vs; cases vp)
       (simp_all add: and_then_def failure_def)
qed

lemma service_manifest_first_failure:
  assumes "first_failure (service_checks cfg kvs) = Some e"
  shows "service_manifest cfg (PDict kvs) = Inl e"
proof -
  define vn where "vn = py_validate_name (dict_get kvs ''name'' PNone)"
  define vp where "vp = py_validate_port (dict_get kvs ''port'' (PInt 80))"
  define vt where "vt = py_validate_port (dict_get kvs ''target_port'' (PInt 80))"
  define vs where "vs = py_validate_namespace cfg (dict_get kvs ''namespace'' (PStr ''default''))"
  note defs = vn_def[symmetric] vp_def[symmetric] vt_def[symmetric] vs_def[symmetric]
  have m: "service_manifest cfg (PDict kvs) =
     and_then vn (\<lambda>name. and_then vp (\<lambda>port. and_then vt (\<lambda>target_port.
     and_then vs (\<lambda>ns.
       Inr (name, generate_service_yaml name port target_port ns
                    (dict_get kvs ''service_type'' (PStr ''ClusterIP'')))))))"
    by (simp add: service_manifest_def py_get_def and_then_def defs)
  have c: "first_failure [failure vn, failure vp, failure vt, failure vs] = Some e"
    using assms by (simp add: service_checks_def defs)
  show ?thesis
    unfolding m using c
    by (cases vn; cases vp; cases vt; cases vs) (simp_all add: and_then_def failure_def)
qed

text \<open>On strings and integers the validators fail with guardrail errors only.\<close>

lemma validate_name_guardrail: "validate_name s = Inl e \<Longrightarrow> guardrail_error e"
  by (auto simp: validate_name_def split: if_splits)

lemma typed_checks_guardrail:
  "py_validate_name (PStr s) = Inl e \<Longrightarrow> guardrail_error e"
  "py_validate_image cfg (PStr s) = Inl e \<Longrightarrow> guardrail_error e"
  "py_validate_replicas cfg (PInt n) = Inl e \<Longrightarrow> guardrail_error e"
  "py_validate_namespace cfg (PStr s) = Inl e \<Longrightarrow> guardrail_error e"
  "py_validate_port (PInt n) = Inl e \<Longrightarrow> guardrail_error e"
  by (auto simp: py_validate_name_def py_validate_image_def py_validate_replicas_def
        py_validate_namespace_def py_validate_port_def validate_image_def
        validate_replicas_def validate_namespace_def validate_port_def and_then_def Let_def
      dest: validate_name_guardrail split: if_splits)

text \<open>
  C7: when one of the guardrail checks of a request fails, the tool returns the text of
  the first failure (for a \<open>ValidationError\<close> of the deployment tool the reply
  \<open>Validation error: ...\<close>, for a \<open>SecurityError\<close> \<open>Security error: ...\<close>, for the service
  tool \<open>Error: ...\<close>) and leaves the world as it was: no command has been run and no
  manifest file written.
\<close>

theorem guardrail_failure_no_cluster_call:
  "(first_failure (deployment_checks cfg kvs) = Some e \<longrightarrow>
      CreateDeploymentTool_run cfg ev w (PDict kvs) = (deployment_error_text e, w))
   \<and> (first_failure (service_checks cfg kvs) = Some e \<longrightarrow>
      CreateServiceTool_run cfg ev w (PDict kvs) = (ErrorText e, w))
   \<and> deployment_error_text (ValidationError m) = ValidationErrorText m
   \<and> deployment_error_text (SecurityError ns) = SecurityErrorText ns"
  by (simp add: CreateDeploymentTool_run_def CreateServiceTool_run_def
        deployment_manifest_first_failure service_manifest_first_failure)

theorem guardrail_failure_no_cluster_call_witness:
  "first_failure (deployment_checks default_config
       [(''name'', PStr ''api''), (''image'', PStr ''nginx''), (''replicas'', PInt 11)])
     = Some (ValidationError (ReplicasExceed 10))
   \<and> CreateDeploymentTool_run default_config not_json_env empty_world
       (PDict [(''name'', PStr ''api''), (''image'', PStr ''nginx''), (''replicas'', PInt 11)])
     = (ValidationErrorText (ReplicasExceed 10), empty_world)
   \<and> first_failure (service_checks default_config
       [(''name'', PStr ''api''), (''namespace'', PStr ''kube-system'')])
     = Some (SecurityError ''kube-system'')
   \<and> CreateServiceTool_run default_config not_json_env empty_world
       (PDict [(''name'', PStr ''api''), (''namespace'', PStr ''kube-system'')])
     = (ErrorText (SecurityError ''kube-system''), empty_world)"
proof -
  have h1: "first_failure (deployment_checks default_config
       [(''name'', PStr ''api''), (''image'', PStr ''nginx''), (''replicas'', PInt 11)])
     = Some (ValidationError (ReplicasExceed 10))" by code_simp
  have h2: "first_failure (service_checks default_config
       [(''name'', PStr ''api''), (''namespace'', PStr ''kube-system'')])
     = Some (SecurityError ''kube-system'')" by code_simp
  have a: "CreateDeploymentTool_run default_config not_json_env empty_world
       (PDict [(''name'', PStr ''api''), (''image'', PStr ''nginx''), (''replicas'', PInt 11)])
     = (deployment_error_text (ValidationError (ReplicasExceed 10)), empty_world)"
    using guardrail_failure_no_cluster_call[of default_config
        "[(''name'', PStr ''api''), (''image'', PStr ''nginx''), (''replicas'', PInt 11)]"
        "ValidationError (ReplicasExceed 10)" not_json_env empty_world] h1
    by blast
  have b: "CreateServiceTool_run default_config not_json_env empty_world
       (PDict [(''name'', PStr ''api''), (''namespace'', PStr ''kube-system'')])
     = (ErrorText (SecurityError ''kube-system''), empty_world)"
    using guardrail_failure_no_cluster_call[of default_config
        "[(''name'', PStr ''api''), (''namespace'', PStr ''kube-system'')]"
        "SecurityError ''kube-system''" not_json_env empty_world] h2
    by blast
  show ?thesis using h1 h2 a b by simp
qed

section \<open>Claims about the agent\<close>

text \<open>
  C1: the scenario text should reach the deployment handler, but the help test of \<open>run\<close>
  looks for the one-letter command \<open>h\<close> anywhere in the text, and \<open>with\<close> has an \<open>h\<close>: \<open>run\<close>
  answers \<open>Help displayed\<close>, and the world is as before (no manifest, no command).
\<close>

theorem run_scenario_help_displayed:
  "run default_config ev others w
     ''Create a deployment named api with nginx image and 3 replicas'' = (HelpDisplayed, w)
   \<and> contains ''h'' (lower ''Create a deployment named api with nginx image and 3 replicas'')"
  by code_simp

text \<open>Past the help test the scenario goes as the specification says: the handler takes
  \<open>api\<close>, \<open>nginx\<close> and 3 out of the text, and the manifest generated from them has 3 replicas
  and the name \<open>api\<close>. The same text with \<open>plus\<close> for \<open>with\<close> has no \<open>h\<close> and reaches the
  handler.\<close>

lemma scenario_past_help:
  "deployment_command_args ''Create a deployment named api with nginx image and 3 replicas''
     = Inr (PStr ''api'', PStr ''nginx'', 3)
   \<and> (case deployment_manifest default_config
             (PDict [(''name'', PStr ''api''), (''image'', PStr ''nginx''), (''replicas'', PInt 3)]) of
         Inl e \<Rightarrow> False
       | Inr (name, ns, y) \<Rightarrow>
           name = ''api'' \<and> ns = ''default''
           \<and> field_at [''spec'', ''replicas''] y = Some (PInt 3)
           \<and> field_at [''metadata'', ''name''] y = Some (PStr ''api''))"
  by code_simp

lemma scenario_without_h:
  "run default_config ev others w
     ''Create a deployment named api plus nginx image and 3 replicas''
   = CreateDeploymentTool_run default_config ev w
       (PDict [(''name'', PStr ''api''), (''image'', PStr ''nginx''), (''replicas'', PInt 3)])"
proof -
  let ?s = "''Create a deployment named api plus nginx image and 3 replicas''"
  have 1: "strip ?s \<noteq> []" by code_simp
  have 2: "\<not> any_in [''help'', ''h'', ''?''] (lower ?s)" by code_simp
  have 3: "\<not> any_in [''status'', ''info''] (lower ?s)" by code_simp
  have 4: "contains ''create'' (lower ?s) \<and> contains ''deployment'' (lower ?s)" by code_simp
  have 5: "deployment_command_args ?s = Inr (PStr ''api'', PStr ''nginx'', 3)" by code_simp
  show ?thesis
    unfolding run_def process_deployment_command_def Let_def using 1 2 3 4 5
    by (simp only: if_False if_True simp_thms sum.case prod.case)
qed

end
